theory Spec2Isabelle
  imports Complex_Main "HOL-Library.Word" "HOL-Library.Multiset"
begin

section \<open>Strands input server: data model\<close>

text \<open>
  The development embeds \<open>UStrandsInputServerSubsystem\<close> (header
  \<open>StrandsInputServerSubsystem.h\<close>, implementation \<open>StrandsInputServerSubsystem.cpp\<close>).
  \<open>double\<close> and \<open>float\<close> values are modelled as reals: rounding, infinities and NaN
  are outside the model, and the casts \<open>(float)Forward\<close> are the identity.
  \<open>int32\<close> is a 32-bit word read in two's complement.
\<close>

type_synonym FVector2D = "real \<times> real"
type_synonym FVector = "real \<times> real \<times> real"

definition V2Add :: "FVector2D \<Rightarrow> FVector2D \<Rightarrow> FVector2D" where
  "V2Add a b = (fst a + fst b, snd a + snd b)"

text \<open>\<open>FMath::Clamp(X, Min, Max)\<close>: \<open>X < Min ? Min : (X < Max ? X : Max)\<close>.\<close>

definition Clamp :: "real \<Rightarrow> real \<Rightarrow> real \<Rightarrow> real" where
  "Clamp x lo hi = (if x < lo then lo else if x < hi then x else hi)"

text \<open>\<open>FVector2D::IsNearlyZero()\<close> with the engine's default tolerance \<open>1.e-4\<close>.\<close>

definition IsNearlyZero :: "FVector2D \<Rightarrow> bool" where
  "IsNearlyZero v = (\<bar>fst v\<bar> \<le> 1 / 10000 \<and> \<bar>snd v\<bar> \<le> 1 / 10000)"

record FStrandsMoveAction =
  Axis :: FVector2D
  MoveEndTime :: real

record FStrandsLookAction =
  Rate :: FVector2D
  LookEndTime :: real

text \<open>
  \<open>TArray::RemoveAtSwap(Index)\<close>: the last element is moved into the hole and the
  array shrinks by one; the order of the remaining elements is not kept.
\<close>

definition RemoveAtSwap :: "nat \<Rightarrow> 'a list \<Rightarrow> 'a list" where
  "RemoveAtSwap i xs = (if i < length xs then butlast (xs[i := last xs]) else xs)"

subsection \<open>The two sweeps of \<open>ApplyScheduledActions\<close>\<close>

text \<open>
  \<open>for (int32 i = Num() - 1; i >= 0; --i)\<close>: the first argument after \<open>Now\<close> is
  \<open>i + 1\<close>, the number of indices still to visit; the loop starts at \<open>Num()\<close>.
\<close>

fun SweepMoveActions ::
  "real \<Rightarrow> nat \<Rightarrow> FStrandsMoveAction list \<Rightarrow> FVector2D \<Rightarrow> FStrandsMoveAction list \<times> FVector2D"
where
  "SweepMoveActions Now 0 acts MoveAxis = (acts, MoveAxis)"
| "SweepMoveActions Now (Suc i) acts MoveAxis =
     (if MoveEndTime (acts ! i) \<le> Now
      then SweepMoveActions Now i (RemoveAtSwap i acts) MoveAxis
      else SweepMoveActions Now i acts (V2Add MoveAxis (Axis (acts ! i))))"

fun SweepLookActions ::
  "real \<Rightarrow> nat \<Rightarrow> FStrandsLookAction list \<Rightarrow> FVector2D \<Rightarrow> FStrandsLookAction list \<times> FVector2D"
where
  "SweepLookActions Now 0 acts LookRate = (acts, LookRate)"
| "SweepLookActions Now (Suc i) acts LookRate =
     (if LookEndTime (acts ! i) \<le> Now
      then SweepLookActions Now i (RemoveAtSwap i acts) LookRate
      else SweepLookActions Now i acts (V2Add LookRate (Rate (acts ! i))))"

text \<open>Lines 397 to 408: the move pool after the sweep, and the clamped axis.\<close>

definition ResolveMove :: "real \<Rightarrow> FStrandsMoveAction list \<Rightarrow> FStrandsMoveAction list \<times> FVector2D" where
  "ResolveMove Now acts =
     (let (acts', MoveAxis) = SweepMoveActions Now (length acts) acts (0, 0)
      in (acts', (Clamp (fst MoveAxis) (-1) 1, Clamp (snd MoveAxis) (-1) 1)))"

text \<open>Lines 411 to 420: the look pool after the sweep, and the rate, which is not clamped.\<close>

definition ResolveLook :: "real \<Rightarrow> FStrandsLookAction list \<Rightarrow> FStrandsLookAction list \<times> FVector2D" where
  "ResolveLook Now acts = SweepLookActions Now (length acts) acts (0, 0)"


subsection \<open>The controlled pawn and its world\<close>

definition VAdd :: "FVector \<Rightarrow> FVector \<Rightarrow> FVector" where
  "VAdd a b = (case a of (ax, ay, az) \<Rightarrow> case b of (bx, by, bz) \<Rightarrow> (ax + bx, ay + by, az + bz))"

definition VScale :: "FVector \<Rightarrow> real \<Rightarrow> FVector" where
  "VScale a k = (case a of (ax, ay, az) \<Rightarrow> (ax * k, ay * k, az * k))"

definition VNeg :: "FVector \<Rightarrow> FVector" where
  "VNeg a = (case a of (ax, ay, az) \<Rightarrow> (- ax, - ay, - az))"

definition VLength :: "FVector \<Rightarrow> real" where
  "VLength a = (case a of (ax, ay, az) \<Rightarrow> sqrt (ax * ax + ay * ay + az * az))"

datatype EMovementMode =
  MOVE_None | MOVE_Walking | MOVE_NavWalking | MOVE_Falling | MOVE_Swimming | MOVE_Flying
  | MOVE_Custom

record FRotator =
  Pitch :: real
  Yaw :: real
  Roll :: real

record UCharacterMovementComponent =
  MaxWalkSpeed :: real
  MovementMode :: EMovementMode
  IsFalling :: bool

text \<open>
  What a pawn has when \<open>Cast<ACharacter>\<close> succeeds. \<open>MovementInputs\<close> and
  \<open>JumpCalls\<close> record the calls of \<open>AddMovementInput\<close> and \<open>Jump\<close>;
  \<open>CapsuleHalfHeight\<close> is \<open>GetCapsuleComponent()->GetScaledCapsuleHalfHeight()\<close>
  when the capsule exists.
\<close>

record ACharacter =
  CharacterMovement :: "UCharacterMovementComponent option"
  CapsuleHalfHeight :: "real option"
  bIsCrouched :: bool
  MovementInputs :: "(FVector \<times> real) list"
  JumpCalls :: nat

record APawn =
  PawnName :: string
  PawnClass :: "string option"
  ActorLocation :: FVector
  ActorRotation :: FRotator
  Velocity :: FVector
  ActorForwardVector :: FVector
  ActorRightVector :: FVector
  ActorUpVector :: FVector
  YawInputs :: "real list"
  PitchInputs :: "real list"
  AsCharacter :: "ACharacter option"

record APlayerController =
  GetPawn :: "APawn option"

text \<open>
  \<open>LineTrace W Start End\<close> is \<open>LineTraceSingleByChannel\<close> on the visibility channel
  with the pawn ignored: \<open>Some\<close> of \<open>Hit.Distance\<close> on a blocking hit, \<open>None\<close>
  otherwise.
\<close>

record UWorld =
  FirstPlayerController :: "APlayerController option"
  LineTrace :: "FVector \<Rightarrow> FVector \<Rightarrow> real option"

definition Strands_GetControlledPawn :: "UWorld option \<Rightarrow> APawn option" where
  "Strands_GetControlledPawn W =
     (case W of None \<Rightarrow> None
      | Some w \<Rightarrow> (case FirstPlayerController w of None \<Rightarrow> None | Some PC \<Rightarrow> GetPawn PC))"

definition Strands_GetControlledCharacter :: "UWorld option \<Rightarrow> APawn option" where
  "Strands_GetControlledCharacter W =
     (case W of None \<Rightarrow> None
      | Some w \<Rightarrow>
          (case FirstPlayerController w of None \<Rightarrow> None
           | Some PC \<Rightarrow>
               (case GetPawn PC of None \<Rightarrow> None
                | Some P \<Rightarrow> (case AsCharacter P of None \<Rightarrow> None | Some c \<Rightarrow> Some P))))"

text \<open>The objects are reached through pointers: a call on the pawn changes it in the world.\<close>

definition UpdatePawn :: "(APawn \<Rightarrow> APawn) \<Rightarrow> UWorld option \<Rightarrow> UWorld option" where
  "UpdatePawn f W =
     map_option (\<lambda>w. w\<lparr>FirstPlayerController :=
        map_option (\<lambda>PC. PC\<lparr>GetPawn := map_option f (GetPawn PC)\<rparr>) (FirstPlayerController w)\<rparr>) W"

definition UpdateCharacter :: "(ACharacter \<Rightarrow> ACharacter) \<Rightarrow> APawn \<Rightarrow> APawn" where
  "UpdateCharacter f P = P\<lparr>AsCharacter := map_option f (AsCharacter P)\<rparr>"

definition AddMovementInput :: "FVector \<Rightarrow> real \<Rightarrow> ACharacter \<Rightarrow> ACharacter" where
  "AddMovementInput Direction ScaleValue c =
     c\<lparr>MovementInputs := MovementInputs c @ [(Direction, ScaleValue)]\<rparr>"

definition Jump :: "ACharacter \<Rightarrow> ACharacter" where
  "Jump c = c\<lparr>JumpCalls := Suc (JumpCalls c)\<rparr>"

definition SetMaxWalkSpeed :: "real \<Rightarrow> ACharacter \<Rightarrow> ACharacter" where
  "SetMaxWalkSpeed v c =
     c\<lparr>CharacterMovement := map_option (\<lambda>m. m\<lparr>MaxWalkSpeed := v\<rparr>) (CharacterMovement c)\<rparr>"

definition AddControllerYawInput :: "real \<Rightarrow> APawn \<Rightarrow> APawn" where
  "AddControllerYawInput v P = P\<lparr>YawInputs := YawInputs P @ [v]\<rparr>"

definition AddControllerPitchInput :: "real \<Rightarrow> APawn \<Rightarrow> APawn" where
  "AddControllerPitchInput v P = P\<lparr>PitchInputs := PitchInputs P @ [v]\<rparr>"

subsection \<open>JSON values\<close>

datatype FJsonValue =
  JNull | JBoolean bool | JNumber real | JString string
  | JArray "FJsonValue list" | JObject "(string \<times> FJsonValue) list"

text \<open>A parsed object, as the fields the code asks for by name.\<close>

type_synonym FJsonObject = "string \<Rightarrow> FJsonValue option"

text \<open>
  The JSON library belongs to the engine. Its reader and its coercing accessor are
  parameters of the model: \<open>Deserialize\<close> is \<open>FJsonSerializer::Deserialize\<close> followed
  by \<open>Obj.IsValid()\<close> (\<open>None\<close> when either fails), and \<open>TryGetBool\<close> is
  \<open>FJsonValue::TryGetBool\<close> (\<open>None\<close> when it returns false).
\<close>

record JsonEngine =
  Deserialize :: "string \<Rightarrow> FJsonObject option"
  TryGetBool :: "FJsonValue \<Rightarrow> bool option"

text \<open>\<open>HasTypedField<EJson::Number>\<close>, \<open><EJson::String>\<close>, \<open><EJson::Boolean>\<close>.\<close>

definition HasNumberField :: "FJsonObject \<Rightarrow> string \<Rightarrow> bool" where
  "HasNumberField Obj name = (case Obj name of Some (JNumber x) \<Rightarrow> True | _ \<Rightarrow> False)"

definition HasStringField :: "FJsonObject \<Rightarrow> string \<Rightarrow> bool" where
  "HasStringField Obj name = (case Obj name of Some (JString x) \<Rightarrow> True | _ \<Rightarrow> False)"

definition HasBooleanField :: "FJsonObject \<Rightarrow> string \<Rightarrow> bool" where
  "HasBooleanField Obj name = (case Obj name of Some (JBoolean x) \<Rightarrow> True | _ \<Rightarrow> False)"

text \<open>\<open>GetNumberField\<close> and \<open>GetBoolField\<close> are only called behind the typed checks.\<close>

definition GetNumberField :: "FJsonObject \<Rightarrow> string \<Rightarrow> real" where
  "GetNumberField Obj name = (case Obj name of Some (JNumber x) \<Rightarrow> x | _ \<Rightarrow> 0)"

definition GetBoolField :: "FJsonObject \<Rightarrow> string \<Rightarrow> bool" where
  "GetBoolField Obj name = (case Obj name of Some (JBoolean b) \<Rightarrow> b | _ \<Rightarrow> False)"

text \<open>
  \<open>GetStringField\<close> is called on \<open>cmd\<close> with no check before it: for a field that is
  missing or not a string the engine reports an error and the model returns the empty
  string.
\<close>

definition GetStringField :: "FJsonObject \<Rightarrow> string \<Rightarrow> string" where
  "GetStringField Obj name = (case Obj name of Some (JString x) \<Rightarrow> x | _ \<Rightarrow> [])"

text \<open>\<open>FString::Equals(Other, ESearchCase::IgnoreCase)\<close>: only ASCII letters fold.\<close>

definition ToLower :: "char \<Rightarrow> char" where
  "ToLower c =
     (case map_of (zip ''ABCDEFGHIJKLMNOPQRSTUVWXYZ'' ''abcdefghijklmnopqrstuvwxyz'') c of
        Some l \<Rightarrow> l | None \<Rightarrow> c)"

definition EqualsIgnoreCase :: "string \<Rightarrow> string \<Rightarrow> bool" where
  "EqualsIgnoreCase a b = (map ToLower a = map ToLower b)"

subsection \<open>Sockets, clients and the subsystem\<close>

datatype ESocketConnectionState = SCS_NotConnected | SCS_Connected | SCS_ConnectionError

text \<open>
  A socket as the frame sees it: the bytes that have arrived and are not read yet,
  the connection state, and whether \<open>Recv\<close> succeeds. Bytes are \<open>char\<close>s, as
  \<open>(TCHAR)Buffer[b]\<close> makes them; a zero byte, which \<open>FString\<close> does not
  store, is outside the model.
\<close>

record FSocket =
  PendingData :: string
  ConnectionState :: ESocketConnectionState
  RecvSucceeds :: bool

record FStrandsClientState =
  Socket :: "FSocket option"
  Pending :: string

text \<open>
  The subsystem's members, then what it acts on: the world of \<open>GetWorld()\<close>, the
  sockets it has closed and destroyed, the screenshots it has requested, the files it
  has written, and \<open>FPaths::ProjectSavedDir()\<close>.
\<close>

record Subsystem =
  Listener :: bool
  Clients :: "FStrandsClientState list"
  bRunning :: bool
  MoveActions :: "FStrandsMoveAction list"
  LookActions :: "FStrandsLookAction list"
  PendingJumpCount :: "32 word"
  PendingSprintEnabled :: "bool option"
  DefaultMoveDuration :: real
  DefaultLookDuration :: real
  NormalWalkSpeed :: real
  SprintWalkSpeed :: real
  World :: "UWorld option"
  DestroyedSockets :: "FSocket list"
  ScreenshotRequests :: "(string \<times> bool) list"
  WrittenFiles :: "(string \<times> (string \<times> FJsonValue) list) list"
  ProjectSavedDir :: string

subsection \<open>\<open>Strands_SplitLines\<close>\<close>

text \<open>\<open>FChar::IsWhitespace\<close> on the bytes of a line: space and the controls 9 to 13.\<close>

definition IsWhitespace :: "char \<Rightarrow> bool" where
  "IsWhitespace c = (c \<in> set [CHR 0x20, CHR 0x09, CHR 0x0A, CHR 0x0B, CHR 0x0C, CHR 0x0D])"

definition TrimStartAndEnd :: "string \<Rightarrow> string" where
  "TrimStartAndEnd s = rev (dropWhile IsWhitespace (rev (dropWhile IsWhitespace s)))"

function Strands_SplitLines :: "string \<Rightarrow> string list \<Rightarrow> string \<times> string list" where
  "Strands_SplitLines Accumulator OutLines =
     (if CHR 0x0A \<in> set Accumulator
      then
        (let NewlineIndex = length (takeWhile (\<lambda>c. c \<noteq> CHR 0x0A) Accumulator);
             Line = TrimStartAndEnd (take NewlineIndex Accumulator);
             Rest = drop (NewlineIndex + 1) Accumulator
         in if Line \<noteq> []
            then Strands_SplitLines Rest
                   (OutLines @ [if 0 < length Line \<and> last Line = CHR 0x0D then butlast Line else Line])
            else Strands_SplitLines Rest OutLines)
      else (Accumulator, OutLines))"
  by pat_completeness auto
termination
  by (relation "measure (\<lambda>(Accumulator, OutLines). length Accumulator)")
     (auto dest: length_pos_if_in_set)

subsection \<open>\<open>BuildWorldState\<close> and \<open>WriteWorldStateToFile\<close>\<close>

text \<open>The lambda \<open>TraceDist\<close>: \<open>bHit ? Hit.Distance : Length\<close>.\<close>

definition TraceDist :: "UWorld \<Rightarrow> FVector \<Rightarrow> FVector \<Rightarrow> real \<Rightarrow> real" where
  "TraceDist w Start Dir Length =
     (case LineTrace w Start (VAdd Start (VScale Dir Length)) of Some d \<Rightarrow> d | None \<Rightarrow> Length)"

definition RangeFwd :: real where "RangeFwd = 200"
definition RangeSide :: real where "RangeSide = 200"
definition RangeDown :: real where "RangeDown = 300"
definition Knee :: real where "Knee = 50"
definition Waist :: real where "Waist = 90"
definition Chest :: real where "Chest = 140"

record Traces =
  ForwardKnee :: real
  ForwardWaist :: real
  ForwardChest :: real
  LeftWaist :: real
  RightWaist :: real
  DownDist :: real

text \<open>
  Lines 557 to 604. \<open>Character\<close> and \<open>Pawn\<close> are the two locals of
  \<open>BuildWorldState\<close>; the six distances stay \<open>0.f\<close> when there is no pawn.
\<close>

definition ProbeTraces :: "UWorld \<Rightarrow> APawn option \<Rightarrow> APawn option \<Rightarrow> Traces" where
  "ProbeTraces w Character Pawn =
     (case Pawn of
        None \<Rightarrow> \<lparr>ForwardKnee = 0, ForwardWaist = 0, ForwardChest = 0,
                  LeftWaist = 0, RightWaist = 0, DownDist = 0\<rparr>
      | Some P \<Rightarrow>
          (let BaseLoc = ActorLocation P;
               Fwd = ActorForwardVector P;
               Right = ActorRightVector P;
               Up = ActorUpVector P;
               HalfHeight =
                 (case Character of
                    None \<Rightarrow> 88
                  | Some C \<Rightarrow>
                      (case AsCharacter C of
                         None \<Rightarrow> 88
                       | Some c \<Rightarrow> (case CapsuleHalfHeight c of None \<Rightarrow> 88 | Some h \<Rightarrow> h)));
               KneeStart = VAdd BaseLoc (VScale Up (Knee - HalfHeight));
               WaistStart = VAdd BaseLoc (VScale Up (Waist - HalfHeight));
               ChestStart = VAdd BaseLoc (VScale Up (Chest - HalfHeight))
           in \<lparr>ForwardKnee = TraceDist w KneeStart Fwd RangeFwd,
               ForwardWaist = TraceDist w WaistStart Fwd RangeFwd,
               ForwardChest = TraceDist w ChestStart Fwd RangeFwd,
               LeftWaist = TraceDist w WaistStart (VNeg Right) RangeSide,
               RightWaist = TraceDist w WaistStart Right RangeSide,
               DownDist = TraceDist w BaseLoc (VNeg Up) RangeDown\<rparr>))"

definition ModeStr :: "EMovementMode \<Rightarrow> string" where
  "ModeStr m =
     (case m of
        MOVE_Walking \<Rightarrow> ''Walking'' | MOVE_NavWalking \<Rightarrow> ''NavWalking''
      | MOVE_Falling \<Rightarrow> ''Falling'' | MOVE_Swimming \<Rightarrow> ''Swimming''
      | MOVE_Flying \<Rightarrow> ''Flying'' | MOVE_Custom \<Rightarrow> ''Custom'' | MOVE_None \<Rightarrow> ''None'')"

text \<open>
  The document is the list of fields in the order \<open>BuildWorldState\<close> sets them; every
  name is set once. With no world the function returns at once and the document is empty.
\<close>

definition BuildWorldState :: "real \<Rightarrow> UWorld option \<Rightarrow> (string \<times> FJsonValue) list" where
  "BuildWorldState Now W =
     (case W of
        None \<Rightarrow> []
      | Some w \<Rightarrow>
          (let Character = Strands_GetControlledCharacter W;
               Pawn = (case Character of Some C \<Rightarrow> Some C | None \<Rightarrow> Strands_GetControlledPawn W);
               PawnFields =
                 (case Pawn of
                    Some P \<Rightarrow>
                      [(''pawn'', JObject
                          [(''name'', JString (PawnName P)),
                           (''class'', JString (case PawnClass P of Some n \<Rightarrow> n | None \<Rightarrow> ''Unknown''))]),
                       (''pos'', JArray (case ActorLocation P of (x, y, z) \<Rightarrow> [JNumber x, JNumber y, JNumber z])),
                       (''rot'', JObject
                          [(''yaw'', JNumber (Yaw (ActorRotation P))),
                           (''pitch'', JNumber (Pitch (ActorRotation P))),
                           (''roll'', JNumber (Roll (ActorRotation P)))]),
                       (''vel'', JArray (case Velocity P of (x, y, z) \<Rightarrow> [JNumber x, JNumber y, JNumber z])),
                       (''speed'', JNumber (VLength (Velocity P)))]
                  | None \<Rightarrow> [(''pawn'', JObject [])]);
               MoveObj =
                 (case Character of
                    None \<Rightarrow> []
                  | Some C \<Rightarrow>
                      (case AsCharacter C of
                         None \<Rightarrow> []
                       | Some c \<Rightarrow>
                           (case CharacterMovement c of
                              None \<Rightarrow> []
                            | Some MoveComp \<Rightarrow>
                                [(''mode'', JString (ModeStr (MovementMode MoveComp))),
                                 (''isFalling'', JBoolean (IsFalling MoveComp)),
                                 (''isCrouched'', JBoolean (bIsCrouched c))])));
               T = ProbeTraces w Character Pawn
           in [(''ts'', JNumber Now)] @ PawnFields @
              [(''move'', JObject MoveObj),
               (''trace'', JObject
                  [(''forward'', JObject
                      [(''knee'', JNumber (ForwardKnee T)),
                       (''waist'', JNumber (ForwardWaist T)),
                       (''chest'', JNumber (ForwardChest T))]),
                   (''left'', JObject [(''waist'', JNumber (LeftWaist T))]),
                   (''right'', JObject [(''waist'', JNumber (RightWaist T))]),
                   (''down'', JObject [(''dist'', JNumber (DownDist T))])]),
               (''blocked'', JObject
                  [(''forward'', JBoolean (0 < ForwardWaist T \<and> ForwardWaist T < 100))])]))"

text \<open>
  The file is recorded with the document itself; the serialised text and the creation of
  the parent directory are not modelled.
\<close>

definition WriteWorldStateToFile :: "real \<Rightarrow> string \<Rightarrow> Subsystem \<Rightarrow> Subsystem" where
  "WriteWorldStateToFile Now OutPath S =
     S\<lparr>WrittenFiles := WrittenFiles S @ [(OutPath, BuildWorldState Now (World S))]\<rparr>"

text \<open>\<open>FPaths::Combine\<close> of two parts: one separator between them.\<close>

definition PathCombine :: "string \<Rightarrow> string \<Rightarrow> string" where
  "PathCombine a b =
     (if a = [] then b else if last a = CHR ''/'' then a @ b else a @ ''/'' @ b)"

text \<open>Reading a field of a document or of a nested object by name.\<close>

definition JField :: "string \<Rightarrow> FJsonValue option \<Rightarrow> FJsonValue option" where
  "JField name v = (case v of Some (JObject fs) \<Rightarrow> map_of fs name | _ \<Rightarrow> None)"

subsection \<open>\<open>ProcessLine\<close>\<close>

text \<open>
  \<open>Now\<close> is the reading of \<open>FPlatformTime::Seconds()\<close>. Log lines are not modelled.
\<close>

definition ProcessLine :: "JsonEngine \<Rightarrow> real \<Rightarrow> string \<Rightarrow> Subsystem \<Rightarrow> Subsystem" where
  "ProcessLine J Now Line S =
     (case Deserialize J Line of
        None \<Rightarrow> S
      | Some Obj \<Rightarrow>
          (let Cmd = GetStringField Obj ''cmd'' in
           if EqualsIgnoreCase Cmd ''move'' then
             (let Forward = (if HasNumberField Obj ''forward'' then GetNumberField Obj ''forward'' else 0);
                  Right = (if HasNumberField Obj ''right'' then GetNumberField Obj ''right'' else 0);
                  Duration = (if HasNumberField Obj ''duration'' then GetNumberField Obj ''duration''
                              else DefaultMoveDuration S)
              in S\<lparr>MoveActions := MoveActions S @
                     [\<lparr>Axis = (Forward, Right), MoveEndTime = Now + max 0 Duration\<rparr>]\<rparr>)
           else if EqualsIgnoreCase Cmd ''look'' then
             (let YawRate = (if HasNumberField Obj ''yawRate'' then GetNumberField Obj ''yawRate'' else 0);
                  PitchRate = (if HasNumberField Obj ''pitchRate'' then GetNumberField Obj ''pitchRate'' else 0);
                  Duration = (if HasNumberField Obj ''duration'' then GetNumberField Obj ''duration''
                              else DefaultLookDuration S)
              in S\<lparr>LookActions := LookActions S @
                     [\<lparr>Rate = (YawRate, PitchRate), LookEndTime = Now + max 0 Duration\<rparr>]\<rparr>)
           else if EqualsIgnoreCase Cmd ''jump'' then
             S\<lparr>PendingJumpCount := PendingJumpCount S + 1\<rparr>
           else if EqualsIgnoreCase Cmd ''sprint'' then
             (case Obj ''enabled'' of
                None \<Rightarrow> S
              | Some v \<Rightarrow>
                  (case TryGetBool J v of
                     None \<Rightarrow> S
                   | Some bEnabled \<Rightarrow> S\<lparr>PendingSprintEnabled := Some bEnabled\<rparr>))
           else if EqualsIgnoreCase Cmd ''screenshot'' then
             (let OutPath = (if HasStringField Obj ''path'' then GetStringField Obj ''path''
                             else PathCombine (ProjectSavedDir S) ''AutoScreenshot.png'');
                  bShowUI = (if HasBooleanField Obj ''showUI'' then GetBoolField Obj ''showUI'' else False)
              in S\<lparr>ScreenshotRequests := ScreenshotRequests S @ [(OutPath, bShowUI)]\<rparr>)
           else if EqualsIgnoreCase Cmd ''state'' then
             (let OutPath = (if HasStringField Obj ''path'' then GetStringField Obj ''path''
                             else PathCombine (ProjectSavedDir S) ''WorldState/agent_state.json'')
              in WriteWorldStateToFile Now OutPath S)
           else S))"

text \<open>
  The copy of the plugin under \<open>MyProject\<close> has no \<open>screenshot\<close> and no \<open>state\<close>
  command; the other four branches are the same.
\<close>

definition ProcessLine_MyProject :: "JsonEngine \<Rightarrow> real \<Rightarrow> string \<Rightarrow> Subsystem \<Rightarrow> Subsystem" where
  "ProcessLine_MyProject J Now Line S =
     (case Deserialize J Line of
        None \<Rightarrow> S
      | Some Obj \<Rightarrow>
          (let Cmd = GetStringField Obj ''cmd'' in
           if EqualsIgnoreCase Cmd ''move'' then
             (let Forward = (if HasNumberField Obj ''forward'' then GetNumberField Obj ''forward'' else 0);
                  Right = (if HasNumberField Obj ''right'' then GetNumberField Obj ''right'' else 0);
                  Duration = (if HasNumberField Obj ''duration'' then GetNumberField Obj ''duration''
                              else DefaultMoveDuration S)
              in S\<lparr>MoveActions := MoveActions S @
                     [\<lparr>Axis = (Forward, Right), MoveEndTime = Now + max 0 Duration\<rparr>]\<rparr>)
           else if EqualsIgnoreCase Cmd ''look'' then
             (let YawRate = (if HasNumberField Obj ''yawRate'' then GetNumberField Obj ''yawRate'' else 0);
                  PitchRate = (if HasNumberField Obj ''pitchRate'' then GetNumberField Obj ''pitchRate'' else 0);
                  Duration = (if HasNumberField Obj ''duration'' then GetNumberField Obj ''duration''
                              else DefaultLookDuration S)
              in S\<lparr>LookActions := LookActions S @
                     [\<lparr>Rate = (YawRate, PitchRate), LookEndTime = Now + max 0 Duration\<rparr>]\<rparr>)
           else if EqualsIgnoreCase Cmd ''jump'' then
             S\<lparr>PendingJumpCount := PendingJumpCount S + 1\<rparr>
           else if EqualsIgnoreCase Cmd ''sprint'' then
             (case Obj ''enabled'' of
                None \<Rightarrow> S
              | Some v \<Rightarrow>
                  (case TryGetBool J v of
                     None \<Rightarrow> S
                   | Some bEnabled \<Rightarrow> S\<lparr>PendingSprintEnabled := Some bEnabled\<rparr>))
           else S))"

subsection \<open>\<open>ApplyScheduledActions\<close> and \<open>ApplySprintIfPending\<close>\<close>

definition ApplyScheduledActions :: "real \<Rightarrow> real \<Rightarrow> Subsystem \<Rightarrow> Subsystem" where
  "ApplyScheduledActions Now DeltaSeconds S =
     (let MoveAxis = snd (ResolveMove Now (MoveActions S));
          LookRate = snd (ResolveLook Now (LookActions S));
          S1 = S\<lparr>MoveActions := fst (ResolveMove Now (MoveActions S)),
                 LookActions := fst (ResolveLook Now (LookActions S))\<rparr>;
          Character = Strands_GetControlledCharacter (World S1);
          S2 = (if Character \<noteq> None
                then
                  (let Sa = (if \<not> IsNearlyZero MoveAxis
                             then S1\<lparr>World := UpdatePawn
                                    (\<lambda>P. UpdateCharacter (AddMovementInput (ActorRightVector P) (snd MoveAxis))
                                           (UpdateCharacter (AddMovementInput (ActorForwardVector P) (fst MoveAxis)) P))
                                    (World S1)\<rparr>
                             else S1)
                   in if 0 < sint (PendingJumpCount Sa)
                      then Sa\<lparr>World := UpdatePawn
                               (UpdateCharacter (Jump ^^ nat (sint (PendingJumpCount Sa)))) (World Sa),
                             PendingJumpCount := 0\<rparr>
                      else Sa)
                else S1);
          Pawn = (if Character \<noteq> None then Character else Strands_GetControlledPawn (World S2))
      in if Pawn \<noteq> None \<and> \<not> IsNearlyZero LookRate
         then S2\<lparr>World := UpdatePawn
                  (\<lambda>P. AddControllerPitchInput (snd LookRate * DeltaSeconds)
                         (AddControllerYawInput (fst LookRate * DeltaSeconds) P))
                  (World S2)\<rparr>
         else S2)"

definition ApplySprintIfPending :: "Subsystem \<Rightarrow> Subsystem" where
  "ApplySprintIfPending S =
     (case PendingSprintEnabled S of
        None \<Rightarrow> S
      | Some b \<Rightarrow>
          (let S1 = (if Strands_GetControlledCharacter (World S) \<noteq> None
                     then S\<lparr>World := UpdatePawn
                            (UpdateCharacter
                               (SetMaxWalkSpeed (if b then SprintWalkSpeed S else NormalWalkSpeed S)))
                            (World S)\<rparr>
                     else S)
           in S1\<lparr>PendingSprintEnabled := None\<rparr>))"

subsection \<open>\<open>PollClients\<close>, \<open>StopServer\<close> and \<open>Tick\<close>\<close>

text \<open>
  The read loop, written twice in the source with the same text (\<open>DrainClient\<close> and
  \<open>PollClients\<close>). \<open>HasPendingData\<close> reports the bytes that have arrived;
  \<open>Recv\<close>, when it succeeds, returns \<open>ToRead\<close> of them; no byte arrives while the
  loop runs. \<open>Process\<close> is the \<open>ProcessLine\<close> of the copy at hand.
\<close>

function DrainPendingData ::
  "(string \<Rightarrow> Subsystem \<Rightarrow> Subsystem) \<Rightarrow> FSocket \<Rightarrow> string \<Rightarrow> Subsystem
     \<Rightarrow> FSocket \<times> string \<times> Subsystem"
where
  "DrainPendingData Process Sock Pend S =
     (if PendingData Sock \<noteq> [] \<and> 0 < length (PendingData Sock)
      then
        (let ToRead = min (length (PendingData Sock)) 65536;
             Chunk = take ToRead (PendingData Sock)
         in if RecvSucceeds Sock \<and> 0 < length Chunk
            then DrainPendingData Process
                   (Sock\<lparr>PendingData := drop ToRead (PendingData Sock)\<rparr>)
                   (fst (Strands_SplitLines (Pend @ Chunk) []))
                   (foldl (\<lambda>s Line. Process Line s) S (snd (Strands_SplitLines (Pend @ Chunk) [])))
            else (Sock, Pend, S))
      else (Sock, Pend, S))"
  by pat_completeness auto
termination
  by (relation "measure (\<lambda>(Process, Sock, Pend, S). length (PendingData Sock))") auto

text \<open>
  \<open>PollClients\<close> of the plugin in \<open>CitySample\<close>: the loop counter is \<open>i + 1\<close>.
  The client is \<open>Clients[i]\<close>, changed in place by the read loop.
\<close>

fun PollClientsLoop :: "JsonEngine \<Rightarrow> real \<Rightarrow> nat \<Rightarrow> Subsystem \<Rightarrow> Subsystem" where
  "PollClientsLoop J Now 0 S = S"
| "PollClientsLoop J Now (Suc i) S =
     (case Socket (Clients S ! i) of
        None \<Rightarrow> PollClientsLoop J Now i (S\<lparr>Clients := RemoveAtSwap i (Clients S)\<rparr>)
      | Some Sock \<Rightarrow>
          (case DrainPendingData (ProcessLine J Now) Sock (Pending (Clients S ! i)) S of
             (Sock', Pend', S') \<Rightarrow>
               if ConnectionState Sock' \<noteq> SCS_Connected
               then PollClientsLoop J Now i
                      (S'\<lparr>Clients := RemoveAtSwap i (Clients S'),
                          DestroyedSockets := DestroyedSockets S' @ [Sock']\<rparr>)
               else PollClientsLoop J Now i
                      (S'\<lparr>Clients := (Clients S')[i := \<lparr>Socket = Some Sock', Pending = Pend'\<rparr>]\<rparr>)))"

definition PollClients :: "JsonEngine \<Rightarrow> real \<Rightarrow> Subsystem \<Rightarrow> Subsystem" where
  "PollClients J Now S = PollClientsLoop J Now (length (Clients S)) S"

text \<open>
  \<open>PollClients\<close> of the copy under \<open>MyProject\<close>: the connection state is read before
  the read loop.
\<close>

fun PollClientsLoop_MyProject :: "JsonEngine \<Rightarrow> real \<Rightarrow> nat \<Rightarrow> Subsystem \<Rightarrow> Subsystem" where
  "PollClientsLoop_MyProject J Now 0 S = S"
| "PollClientsLoop_MyProject J Now (Suc i) S =
     (case Socket (Clients S ! i) of
        None \<Rightarrow> PollClientsLoop_MyProject J Now i (S\<lparr>Clients := RemoveAtSwap i (Clients S)\<rparr>)
      | Some Sock \<Rightarrow>
          if ConnectionState Sock \<noteq> SCS_Connected
          then PollClientsLoop_MyProject J Now i
                 (S\<lparr>Clients := RemoveAtSwap i (Clients S),
                    DestroyedSockets := DestroyedSockets S @ [Sock]\<rparr>)
          else
            (case DrainPendingData (ProcessLine_MyProject J Now) Sock (Pending (Clients S ! i)) S of
               (Sock', Pend', S') \<Rightarrow>
                 PollClientsLoop_MyProject J Now i
                   (S'\<lparr>Clients := (Clients S')[i := \<lparr>Socket = Some Sock', Pending = Pend'\<rparr>]\<rparr>)))"

definition PollClients_MyProject :: "JsonEngine \<Rightarrow> real \<Rightarrow> Subsystem \<Rightarrow> Subsystem" where
  "PollClients_MyProject J Now S = PollClientsLoop_MyProject J Now (length (Clients S)) S"

definition StopServer :: "Subsystem \<Rightarrow> Subsystem" where
  "StopServer S =
     S\<lparr>bRunning := False,
        DestroyedSockets := DestroyedSockets S @ List.map_filter Socket (Clients S),
        Clients := [],
        Listener := False\<rparr>"

text \<open>
  \<open>Tick\<close>: \<open>NowPoll\<close> is the clock as \<open>ProcessLine\<close> reads it during the poll,
  \<open>NowApply\<close> as \<open>ApplyScheduledActions\<close> reads it afterwards.
\<close>

definition Tick :: "JsonEngine \<Rightarrow> real \<Rightarrow> real \<Rightarrow> real \<Rightarrow> Subsystem \<Rightarrow> Subsystem" where
  "Tick J NowPoll NowApply DeltaTime S =
     ApplySprintIfPending
       (ApplyScheduledActions NowApply DeltaTime
          (if bRunning S then PollClients J NowPoll S else S))"

subsection \<open>A reference JSON reader\<close>

text \<open>
  A reader for objects, arrays, strings without escapes, decimal numbers and the three
  literals. It instantiates the engine's reader at concrete lines; the depth and the
  number of members it accepts are bounded by its first argument.
\<close>

definition IsDigit :: "char \<Rightarrow> bool" where
  "IsDigit c = (c \<in> set ''0123456789'')"

definition DigitVal :: "char \<Rightarrow> nat" where
  "DigitVal c =
     (case map_of (zip ''0123456789'' [0, 1, 2, 3, 4, 5, 6, 7, 8, 9]) c of
        Some d \<Rightarrow> d | None \<Rightarrow> 0)"

definition DigitsVal :: "string \<Rightarrow> nat" where
  "DigitsVal ds = foldl (\<lambda>n c. 10 * n + DigitVal c) 0 ds"

definition ReadNumber :: "string \<Rightarrow> (real \<times> string) option" where
  "ReadNumber s =
     (let neg = (s \<noteq> [] \<and> hd s = CHR ''-'');
          s1 = (if neg then tl s else s);
          ip = takeWhile IsDigit s1;
          r1 = dropWhile IsDigit s1;
          hasfrac = (r1 \<noteq> [] \<and> hd r1 = CHR ''.'');
          fp = (if hasfrac then takeWhile IsDigit (tl r1) else []);
          r2 = (if hasfrac then dropWhile IsDigit (tl r1) else r1);
          v = real (DigitsVal ip) + real (DigitsVal fp) / 10 ^ length fp
      in if ip = [] \<or> (hasfrac \<and> fp = []) then None
         else Some (if neg then - v else v, r2))"

fun ReadString :: "string \<Rightarrow> (string \<times> string) option" where
  "ReadString [] = None"
| "ReadString (c # cs) =
     (if c = CHR 0x22 then Some ([], cs)
      else if c = CHR 0x5C then None
      else (case ReadString cs of None \<Rightarrow> None | Some (t, r) \<Rightarrow> Some (c # t, r)))"

fun ReadValue :: "nat \<Rightarrow> string \<Rightarrow> (FJsonValue \<times> string) option"
  and ReadMembers :: "nat \<Rightarrow> string \<Rightarrow> ((string \<times> FJsonValue) list \<times> string) option"
  and ReadElements :: "nat \<Rightarrow> string \<Rightarrow> (FJsonValue list \<times> string) option"
where
  "ReadValue 0 s = None"
| "ReadValue (Suc n) s =
     (case dropWhile IsWhitespace s of
        [] \<Rightarrow> None
      | c # cs \<Rightarrow>
          if c = CHR 0x22 then
            (case ReadString cs of None \<Rightarrow> None | Some (t, r) \<Rightarrow> Some (JString t, r))
          else if c = CHR ''{'' then
            (case dropWhile IsWhitespace cs of
               [] \<Rightarrow> None
             | d # ds \<Rightarrow>
                 if d = CHR ''}'' then Some (JObject [], ds)
                 else (case ReadMembers n (d # ds) of
                         None \<Rightarrow> None | Some (m, r) \<Rightarrow> Some (JObject m, r)))
          else if c = CHR ''['' then
            (case dropWhile IsWhitespace cs of
               [] \<Rightarrow> None
             | d # ds \<Rightarrow>
                 if d = CHR '']'' then Some (JArray [], ds)
                 else (case ReadElements n (d # ds) of
                         None \<Rightarrow> None | Some (m, r) \<Rightarrow> Some (JArray m, r)))
          else if take 4 (c # cs) = ''true'' then Some (JBoolean True, drop 4 (c # cs))
          else if take 5 (c # cs) = ''false'' then Some (JBoolean False, drop 5 (c # cs))
          else if take 4 (c # cs) = ''null'' then Some (JNull, drop 4 (c # cs))
          else (case ReadNumber (c # cs) of None \<Rightarrow> None | Some (x, r) \<Rightarrow> Some (JNumber x, r)))"
| "ReadMembers 0 s = None"
| "ReadMembers (Suc n) s =
     (case dropWhile IsWhitespace s of
        [] \<Rightarrow> None
      | c # cs \<Rightarrow>
          if c \<noteq> CHR 0x22 then None
          else
            (case ReadString cs of
               None \<Rightarrow> None
             | Some (k, r) \<Rightarrow>
                 (case dropWhile IsWhitespace r of
                    [] \<Rightarrow> None
                  | d # ds \<Rightarrow>
                      if d \<noteq> CHR '':'' then None
                      else
                        (case ReadValue n ds of
                           None \<Rightarrow> None
                         | Some (v, r1) \<Rightarrow>
                             (case dropWhile IsWhitespace r1 of
                                [] \<Rightarrow> None
                              | e # es \<Rightarrow>
                                  if e = CHR ''}'' then Some ([(k, v)], es)
                                  else if e = CHR '','' then
                                    (case ReadMembers n es of
                                       None \<Rightarrow> None
                                     | Some (m, r2) \<Rightarrow> Some ((k, v) # m, r2))
                                  else None)))))"
| "ReadElements 0 s = None"
| "ReadElements (Suc n) s =
     (case ReadValue n s of
        None \<Rightarrow> None
      | Some (v, r1) \<Rightarrow>
          (case dropWhile IsWhitespace r1 of
             [] \<Rightarrow> None
           | e # es \<Rightarrow>
               if e = CHR '']'' then Some ([v], es)
               else if e = CHR '','' then
                 (case ReadElements n es of
                    None \<Rightarrow> None
                  | Some (m, r2) \<Rightarrow> Some (v # m, r2))
               else None))"

definition ReferenceDeserialize :: "string \<Rightarrow> FJsonObject option" where
  "ReferenceDeserialize s =
     (case ReadValue (Suc (length s)) s of
        Some (JObject m, r) \<Rightarrow> if dropWhile IsWhitespace r = [] then Some (map_of m) else None
      | _ \<Rightarrow> None)"

text \<open>
  \<open>FJsonValue::TryGetBool\<close> as the engine's value classes override it: a boolean gives
  its value, a number gives \<open>Value != 0.0\<close>, a string gives \<open>Value.ToBool()\<close>; null,
  arrays and objects keep the base method, which returns false. \<open>FString::ToBool\<close> is
  true for \<open>True\<close>, \<open>Yes\<close> and \<open>On\<close>, false for \<open>False\<close>, \<open>No\<close> and \<open>Off\<close>
  (case ignored), and otherwise whether \<open>Atoi\<close> of the text is not 0; the overflow of
  \<open>Atoi\<close> is not modelled.
\<close>

definition Atoi :: "string \<Rightarrow> int" where
  "Atoi s =
     (let t = dropWhile IsWhitespace s;
          neg = (t \<noteq> [] \<and> hd t = CHR ''-'');
          t1 = (if t \<noteq> [] \<and> (hd t = CHR ''-'' \<or> hd t = CHR ''+'') then tl t else t);
          n = int (DigitsVal (takeWhile IsDigit t1))
      in if neg then - n else n)"

definition FStringToBool :: "string \<Rightarrow> bool" where
  "FStringToBool s =
     (if EqualsIgnoreCase s ''True'' \<or> EqualsIgnoreCase s ''Yes'' \<or> EqualsIgnoreCase s ''On''
      then True
      else if EqualsIgnoreCase s ''False'' \<or> EqualsIgnoreCase s ''No'' \<or> EqualsIgnoreCase s ''Off''
      then False
      else Atoi s \<noteq> 0)"

definition EngineTryGetBool :: "FJsonValue \<Rightarrow> bool option" where
  "EngineTryGetBool v =
     (case v of
        JBoolean b \<Rightarrow> Some b
      | JNumber x \<Rightarrow> Some (x \<noteq> 0)
      | JString t \<Rightarrow> Some (FStringToBool t)
      | JNull \<Rightarrow> None
      | JArray xs \<Rightarrow> None
      | JObject fs \<Rightarrow> None)"

definition ReferenceJson :: JsonEngine where
  "ReferenceJson = \<lparr>Deserialize = ReferenceDeserialize, TryGetBool = EngineTryGetBool\<rparr>"

subsection \<open>Observations and concrete states\<close>

text \<open>How often \<open>Jump\<close> has been called on the controlled character (0 when there is none).\<close>

definition ControlledJumpCalls :: "Subsystem \<Rightarrow> nat" where
  "ControlledJumpCalls S =
     (case Strands_GetControlledCharacter (World S) of
        None \<Rightarrow> 0
      | Some P \<Rightarrow> (case AsCharacter P of None \<Rightarrow> 0 | Some c \<Rightarrow> JumpCalls c))"

text \<open>The calls of \<open>AddMovementInput\<close> on the controlled character, oldest first.\<close>

definition ControlledMovementInputs :: "Subsystem \<Rightarrow> (FVector \<times> real) list" where
  "ControlledMovementInputs S =
     (case Strands_GetControlledCharacter (World S) of
        None \<Rightarrow> []
      | Some P \<Rightarrow> (case AsCharacter P of None \<Rightarrow> [] | Some c \<Rightarrow> MovementInputs c))"

text \<open>\<open>MaxWalkSpeed\<close> of the controlled character's movement component, when both exist.\<close>

definition ControlledMaxWalkSpeed :: "Subsystem \<Rightarrow> real option" where
  "ControlledMaxWalkSpeed S =
     (case Strands_GetControlledCharacter (World S) of
        None \<Rightarrow> None
      | Some P \<Rightarrow>
          (case AsCharacter P of
             None \<Rightarrow> None
           | Some c \<Rightarrow> map_option MaxWalkSpeed (CharacterMovement c)))"

text \<open>The subsystem as the header initialises it, before \<open>StartServer\<close>, in world \<open>W\<close>.\<close>

definition InitialSubsystem :: "UWorld option \<Rightarrow> Subsystem" where
  "InitialSubsystem W =
     \<lparr>Listener = False, Clients = [], bRunning = False,
      MoveActions = [], LookActions = [], PendingJumpCount = 0, PendingSprintEnabled = None,
      DefaultMoveDuration = 1 / 4, DefaultLookDuration = 1 / 5,
      NormalWalkSpeed = 600, SprintWalkSpeed = 1000,
      World = W, DestroyedSockets = [], ScreenshotRequests = [], WrittenFiles = [],
      ProjectSavedDir = ''Saved/''\<rparr>"

text \<open>
  A character standing at \<open>(10, 20, 30)\<close> with yaw 90 and no velocity, and a world in
  which no trace hits anything.
\<close>

definition StandingCharacter :: APawn where
  "StandingCharacter =
     \<lparr>PawnName = ''Hero'', PawnClass = Some ''Character'',
      ActorLocation = (10, 20, 30),
      ActorRotation = \<lparr>Pitch = 0, Yaw = 90, Roll = 0\<rparr>,
      Velocity = (0, 0, 0),
      ActorForwardVector = (0, 1, 0), ActorRightVector = (-1, 0, 0), ActorUpVector = (0, 0, 1),
      YawInputs = [], PitchInputs = [],
      AsCharacter = Some
        \<lparr>CharacterMovement = Some \<lparr>MaxWalkSpeed = 600, MovementMode = MOVE_Walking, IsFalling = False\<rparr>,
         CapsuleHalfHeight = Some 88, bIsCrouched = False, MovementInputs = [], JumpCalls = 0\<rparr>\<rparr>"

definition OpenWorld :: UWorld where
  "OpenWorld =
     \<lparr>FirstPlayerController = Some \<lparr>GetPawn = Some StandingCharacter\<rparr>,
      LineTrace = (\<lambda>Start End. None)\<rparr>"

definition EmptyWorld :: UWorld where
  "EmptyWorld = \<lparr>FirstPlayerController = None, LineTrace = (\<lambda>Start End. None)\<rparr>"

text \<open>The lines and byte streams of the testable properties P5 and P6.\<close>

definition JumpLine :: string where
  \<open>JumpLine = ''{"cmd":"jump"}''\<close>

definition MoveForwardLine :: string where
  \<open>MoveForwardLine = ''{"cmd":"move","forward":1}''\<close>

definition JumpThenMoveStream :: string where
  "JumpThenMoveStream = JumpLine @ [CHR 0x0A] @ MoveForwardLine @ [CHR 0x0D, CHR 0x0A]"

definition NotJsonThenJumpStream :: string where
  "NotJsonThenJumpStream = ''not json'' @ [CHR 0x0A] @ JumpLine @ [CHR 0x0A]"

text \<open>A socket that holds \<open>Data\<close> and is in connection state \<open>St\<close>.\<close>

definition SocketWith :: "string \<Rightarrow> ESocketConnectionState \<Rightarrow> FSocket" where
  "SocketWith Data St = \<lparr>PendingData = Data, ConnectionState = St, RecvSucceeds = True\<rparr>"

text \<open>
  A running server with one client whose peer sent a jump command and closed: the bytes
  are still to be read and the socket is no longer connected.
\<close>

definition SentThenClosed :: Subsystem where
  "SentThenClosed =
     (InitialSubsystem (Some OpenWorld))
       \<lparr>Listener := True, bRunning := True,
        Clients := [\<lparr>Socket = Some (SocketWith (JumpLine @ [CHR 0x0A]) SCS_NotConnected),
                     Pending = []\<rparr>]\<rparr>"

text \<open>
  What a state document reports: the six distances under \<open>trace\<close>, in the order
  forward knee, forward waist, forward chest, left waist, right waist, down; and the flag
  \<open>blocked.forward\<close>.
\<close>

definition ReportedTraces :: "(string \<times> FJsonValue) list \<Rightarrow> FJsonValue option list" where
  "ReportedTraces doc =
     (let trace = JField ''trace'' (Some (JObject doc))
      in [JField ''knee'' (JField ''forward'' trace),
          JField ''waist'' (JField ''forward'' trace),
          JField ''chest'' (JField ''forward'' trace),
          JField ''waist'' (JField ''left'' trace),
          JField ''waist'' (JField ''right'' trace),
          JField ''dist'' (JField ''down'' trace)])"

definition ReportedBlockedForward :: "(string \<times> FJsonValue) list \<Rightarrow> FJsonValue option" where
  "ReportedBlockedForward doc = JField ''forward'' (JField ''blocked'' (Some (JObject doc)))"

text \<open>The calls of \<open>AddControllerYawInput\<close> and \<open>AddControllerPitchInput\<close> on the controlled pawn.\<close>

definition ControlledYawInputs :: "Subsystem \<Rightarrow> real list" where
  "ControlledYawInputs S =
     (case Strands_GetControlledPawn (World S) of None \<Rightarrow> [] | Some P \<Rightarrow> YawInputs P)"

definition ControlledPitchInputs :: "Subsystem \<Rightarrow> real list" where
  "ControlledPitchInputs S =
     (case Strands_GetControlledPawn (World S) of None \<Rightarrow> [] | Some P \<Rightarrow> PitchInputs P)"

text \<open>
  A run of frames: one \<open>Tick\<close> for each entry, which gives the two clock readings and
  the frame time of that tick.
\<close>

fun Ticks :: "JsonEngine \<Rightarrow> (real \<times> real \<times> real) list \<Rightarrow> Subsystem \<Rightarrow> Subsystem" where
  "Ticks J [] S = S"
| "Ticks J ((NowPoll, NowApply, DeltaTime) # frames) S =
     Ticks J frames (Tick J NowPoll NowApply DeltaTime S)"

definition SumRates :: "FStrandsLookAction list \<Rightarrow> FVector2D" where
  "SumRates acts = (sum_list (map (\<lambda>a. fst (Rate a)) acts), sum_list (map (\<lambda>a. snd (Rate a)) acts))"

definition UnexpiredLook :: "real \<Rightarrow> FStrandsLookAction \<Rightarrow> bool" where
  "UnexpiredLook Now a = (Now < LookEndTime a)"

definition SumAxes :: "FStrandsMoveAction list \<Rightarrow> FVector2D" where
  "SumAxes acts = (sum_list (map (\<lambda>a. fst (Axis a)) acts), sum_list (map (\<lambda>a. snd (Axis a)) acts))"

definition Unexpired :: "real \<Rightarrow> FStrandsMoveAction \<Rightarrow> bool" where
  "Unexpired Now a = (Now < MoveEndTime a)"

section \<open>The sweep keeps exactly the unexpired actions\<close>

lemma RemoveAtSwap_length:
  "i < length xs \<Longrightarrow> length (RemoveAtSwap i xs) = length xs - 1"
  by (simp add: RemoveAtSwap_def)

lemma RemoveAtSwap_nth:
  assumes "i < length xs" "j < length xs - 1"
  shows "RemoveAtSwap i xs ! j = (if j = i then last xs else xs ! j)"
  using assms by (simp add: RemoveAtSwap_def nth_butlast)

lemma RemoveAtSwap_take:
  assumes "i < length xs"
  shows "take i (RemoveAtSwap i xs) = take i xs"
proof (rule nth_equalityI)
  show "length (take i (RemoveAtSwap i xs)) = length (take i xs)"
    using assms by (simp add: RemoveAtSwap_def)
next
  fix j assume "j < length (take i (RemoveAtSwap i xs))"
  then have "j < i" by simp
  with assms show "take i (RemoveAtSwap i xs) ! j = take i xs ! j"
    by (simp add: RemoveAtSwap_nth)
qed

lemma RemoveAtSwap_mset:
  assumes "i < length xs"
  shows "add_mset (xs ! i) (mset (RemoveAtSwap i xs)) = mset xs"
proof -
  have ne: "xs \<noteq> []" using assms by auto
  have "mset (xs[i := last xs]) = add_mset (last xs) (mset xs - {#xs ! i#})"
    using assms by (simp add: mset_update)
  moreover have "xs[i := last xs] \<noteq> []" using ne by simp
  moreover have "last (xs[i := last xs]) = last xs"
    using assms ne by (simp add: last_conv_nth nth_list_update)
  ultimately have "add_mset (last xs) (mset (butlast (xs[i := last xs])))
      = add_mset (last xs) (mset xs - {#xs ! i#})"
    by (metis append_butlast_last_id mset.simps(2) mset_append union_mset_add_mset_right
        add.right_neutral mset.simps(1))
  then have "mset (butlast (xs[i := last xs])) = mset xs - {#xs ! i#}" by simp
  moreover have "xs ! i \<in># mset xs" using assms by simp
  ultimately show ?thesis using assms by (simp add: RemoveAtSwap_def)
qed


lemma V2Add_SumAxes_snoc:
  "V2Add ax (SumAxes (xs @ [a])) = V2Add (V2Add ax (Axis a)) (SumAxes xs)"
  by (simp add: V2Add_def SumAxes_def)

lemma SweepMoveActions_invariant:
  assumes "k \<le> length acts"
    and "\<forall>j. k \<le> j \<and> j < length acts \<longrightarrow> Unexpired Now (acts ! j)"
  shows "mset (fst (SweepMoveActions Now k acts ax)) = mset (filter (Unexpired Now) acts)
       \<and> snd (SweepMoveActions Now k acts ax)
           = V2Add ax (SumAxes (filter (Unexpired Now) (take k acts)))"
  using assms
proof (induction k arbitrary: acts ax)
  case 0
  then have "\<forall>a \<in> set acts. Unexpired Now a"
    by (auto simp: in_set_conv_nth)
  then have "filter (Unexpired Now) acts = acts" by simp
  then show ?case by (simp add: V2Add_def SumAxes_def)
next
  case (Suc k)
  then have klt: "k < length acts" by simp
  have tk: "take (Suc k) acts = take k acts @ [acts ! k]"
    using klt by (simp add: take_Suc_conv_app_nth)
  show ?case
  proof (cases "MoveEndTime (acts ! k) \<le> Now")
    case True
    let ?acts' = "RemoveAtSwap k acts"
    have len: "length ?acts' = length acts - 1"
      using klt by (rule RemoveAtSwap_length)
    have le': "k \<le> length ?acts'" using klt len by simp
    have inv': "\<forall>j. k \<le> j \<and> j < length ?acts' \<longrightarrow> Unexpired Now (?acts' ! j)"
    proof (intro allI impI)
      fix j assume j: "k \<le> j \<and> j < length ?acts'"
      then have j1: "j < length acts - 1" using len by simp
      show "Unexpired Now (?acts' ! j)"
      proof (cases "j = k")
        case True
        have "acts \<noteq> []" using klt by auto
        then have "last acts = acts ! (length acts - 1)" by (rule last_conv_nth)
        moreover have "Unexpired Now (acts ! (length acts - 1))"
          using Suc.prems(2) j1 True by simp
        ultimately show ?thesis using klt j1 True by (simp add: RemoveAtSwap_nth)
      next
        case False
        then have "Unexpired Now (acts ! j)" using Suc.prems(2) j j1 by simp
        then show ?thesis using klt j1 False by (simp add: RemoveAtSwap_nth)
      qed
    qed
    have dead: "\<not> Unexpired Now (acts ! k)" using True by (simp add: Unexpired_def)
    have "filter_mset (Unexpired Now) (mset acts)
        = filter_mset (Unexpired Now) (add_mset (acts ! k) (mset ?acts'))"
      using RemoveAtSwap_mset [OF klt] by simp
    then have m: "mset (filter (Unexpired Now) acts) = mset (filter (Unexpired Now) ?acts')"
      using dead by simp
    have t: "filter (Unexpired Now) (take (Suc k) acts) = filter (Unexpired Now) (take k ?acts')"
      using dead tk RemoveAtSwap_take [OF klt] by simp
    show ?thesis
      using Suc.IH [OF le' inv', of ax] True m t by simp
  next
    case False
    then have live: "Unexpired Now (acts ! k)" by (simp add: Unexpired_def)
    have le': "k \<le> length acts" using klt by simp
    have inv': "\<forall>j. k \<le> j \<and> j < length acts \<longrightarrow> Unexpired Now (acts ! j)"
    proof (intro allI impI)
      fix j assume j: "k \<le> j \<and> j < length acts"
      show "Unexpired Now (acts ! j)"
      proof (cases "j = k")
        case True then show ?thesis using live by simp
      next
        case False then show ?thesis using Suc.prems(2) j by simp
      qed
    qed
    have t: "filter (Unexpired Now) (take (Suc k) acts)
        = filter (Unexpired Now) (take k acts) @ [acts ! k]"
      using live tk by simp
    show ?thesis
      using Suc.IH [OF le' inv', of "V2Add ax (Axis (acts ! k))"] False t
      by (simp add: V2Add_SumAxes_snoc)
  qed
qed

lemma SweepMoveActions_all:
  "mset (fst (SweepMoveActions Now (length acts) acts (0, 0))) = mset (filter (Unexpired Now) acts)
   \<and> snd (SweepMoveActions Now (length acts) acts (0, 0)) = SumAxes (filter (Unexpired Now) acts)"
proof -
  have "V2Add (0, 0) (SumAxes (filter (Unexpired Now) acts)) = SumAxes (filter (Unexpired Now) acts)"
    by (simp add: V2Add_def)
  moreover have "\<forall>j. length acts \<le> j \<and> j < length acts \<longrightarrow> Unexpired Now (acts ! j)"
    by auto
  ultimately show ?thesis
    using SweepMoveActions_invariant [of "length acts" acts Now "(0, 0)"] by simp
qed

section \<open>Resolving the move pool\<close>


lemma ApplyScheduledActions_MoveActions:
  "MoveActions (ApplyScheduledActions T dt S) = fst (ResolveMove T (MoveActions S))"
  by (simp add: ApplyScheduledActions_def Let_def)

lemma Clamp_unit: "Clamp x (- 1) 1 = max (- 1) (min 1 x)"
  by (simp add: Clamp_def max_def min_def)

section \<open>The controlled character under updates\<close>

lemma GetControlledCharacter_UpdatePawn:
  assumes "\<And>P. (AsCharacter (f P) = None) = (AsCharacter P = None)"
  shows "Strands_GetControlledCharacter (UpdatePawn f W) = map_option f (Strands_GetControlledCharacter W)"
proof -
  have a: "\<And>P c. AsCharacter P = None \<Longrightarrow> AsCharacter (f P) = Some c \<Longrightarrow> False"
    using assms by (metis option.distinct(1))
  have b: "\<And>P c. AsCharacter (f P) = None \<Longrightarrow> AsCharacter P = Some c \<Longrightarrow> False"
    using assms by (metis option.distinct(1))
  show ?thesis
    by (auto simp: Strands_GetControlledCharacter_def UpdatePawn_def split: option.splits
        dest: a b)
qed

lemma GetControlledPawn_UpdatePawn:
  "Strands_GetControlledPawn (UpdatePawn f W) = map_option f (Strands_GetControlledPawn W)"
  by (auto simp: Strands_GetControlledPawn_def UpdatePawn_def split: option.splits)

lemma GetControlledCharacter_is_character:
  "Strands_GetControlledCharacter W = Some P \<Longrightarrow> \<exists>c. AsCharacter P = Some c"
  by (auto simp: Strands_GetControlledCharacter_def split: option.splits)

lemma JumpCalls_funpow: "JumpCalls ((Jump ^^ n) c) = JumpCalls c + n"
  by (induction n) (simp_all add: Jump_def)

lemma ApplyScheduledActions_jump_counter:
  "PendingJumpCount (ApplyScheduledActions T dt S) =
     (if Strands_GetControlledCharacter (World S) \<noteq> None \<and> 0 < sint (PendingJumpCount S)
      then 0 else PendingJumpCount S)"
  by (simp add: ApplyScheduledActions_def Let_def)

lemma ApplyScheduledActions_jump_calls:
  "ControlledJumpCalls (ApplyScheduledActions T dt S) =
     (if Strands_GetControlledCharacter (World S) \<noteq> None \<and> 0 < sint (PendingJumpCount S)
      then ControlledJumpCalls S + nat (sint (PendingJumpCount S)) else ControlledJumpCalls S)"
  by (auto simp: ApplyScheduledActions_def Let_def ControlledJumpCalls_def
      GetControlledCharacter_UpdatePawn UpdateCharacter_def AddMovementInput_def
      AddControllerYawInput_def AddControllerPitchInput_def JumpCalls_funpow
      dest: GetControlledCharacter_is_character split: option.splits)

section \<open>Decoding one line\<close>

lemma lower_names:
  "map ToLower ''move'' = ''move''" "map ToLower ''look'' = ''look''"
  "map ToLower ''jump'' = ''jump''" "map ToLower ''sprint'' = ''sprint''"
  "map ToLower ''screenshot'' = ''screenshot''" "map ToLower ''state'' = ''state''"
  "map ToLower [] = []"
  by (simp_all add: ToLower_def)

lemma cmd_exclusive:
  "EqualsIgnoreCase c a \<Longrightarrow> map ToLower a \<noteq> map ToLower b \<Longrightarrow> \<not> EqualsIgnoreCase c b"
  by (simp add: EqualsIgnoreCase_def)

lemma ProcessLine_jump:
  assumes "Deserialize J Line = Some Obj" "EqualsIgnoreCase (GetStringField Obj ''cmd'') ''jump''"
  shows "ProcessLine J Now Line S = S\<lparr>PendingJumpCount := PendingJumpCount S + 1\<rparr>"
proof -
  have "\<not> EqualsIgnoreCase (GetStringField Obj ''cmd'') ''move''"
    and "\<not> EqualsIgnoreCase (GetStringField Obj ''cmd'') ''look''"
    by (rule cmd_exclusive [OF assms(2)], simp add: ToLower_def)+
  then show ?thesis
    using assms by (simp add: ProcessLine_def)
qed

lemma ProcessLine_no_json:
  "Deserialize J Line = None \<Longrightarrow> ProcessLine J Now Line S = S"
  by (simp add: ProcessLine_def)

lemma ref_jump: \<open>ReferenceDeserialize ''{"cmd":"jump"}'' = Some (map_of [(''cmd'', JString ''jump'')])\<close>
  by (simp add: ReferenceDeserialize_def IsWhitespace_def)

lemma ref_move: \<open>ReferenceDeserialize ''{"cmd":"move","forward":1}'' = Some (map_of [(''cmd'', JString ''move''), (''forward'', JNumber 1)])\<close>
  by (simp add: ReferenceDeserialize_def IsWhitespace_def ReadNumber_def IsDigit_def DigitsVal_def DigitVal_def)

lemma ref_notjson: \<open>ReferenceDeserialize ''not json'' = None\<close>
  by (simp add: ReferenceDeserialize_def IsWhitespace_def ReadNumber_def IsDigit_def DigitsVal_def DigitVal_def)

lemma ProcessLine_move:
  assumes "Deserialize J Line = Some Obj" "EqualsIgnoreCase (GetStringField Obj ''cmd'') ''move''"
  shows "ProcessLine J Now Line S =
     S\<lparr>MoveActions := MoveActions S @
        [\<lparr>Axis = (if HasNumberField Obj ''forward'' then GetNumberField Obj ''forward'' else 0,
                  if HasNumberField Obj ''right'' then GetNumberField Obj ''right'' else 0),
          MoveEndTime = Now + max 0 (if HasNumberField Obj ''duration''
                                      then GetNumberField Obj ''duration'' else DefaultMoveDuration S)\<rparr>]\<rparr>"
  using assms by (simp add: ProcessLine_def Let_def)

lemma ProcessLine_sprint:
  assumes "Deserialize J Line = Some Obj" "EqualsIgnoreCase (GetStringField Obj ''cmd'') ''sprint''"
  shows "ProcessLine J Now Line S =
     (case Obj ''enabled'' of
        None \<Rightarrow> S
      | Some v \<Rightarrow> (case TryGetBool J v of None \<Rightarrow> S
                   | Some b \<Rightarrow> S\<lparr>PendingSprintEnabled := Some b\<rparr>))"
proof -
  have "\<not> EqualsIgnoreCase (GetStringField Obj ''cmd'') ''move''"
    and "\<not> EqualsIgnoreCase (GetStringField Obj ''cmd'') ''look''"
    and "\<not> EqualsIgnoreCase (GetStringField Obj ''cmd'') ''jump''"
    by (rule cmd_exclusive [OF assms(2)], simp add: ToLower_def)+
  then show ?thesis
    using assms by (simp add: ProcessLine_def)
qed

lemma ProcessLine_unknown:
  assumes "Deserialize J Line = Some Obj"
    and "\<not> EqualsIgnoreCase (GetStringField Obj ''cmd'') ''move''"
    and "\<not> EqualsIgnoreCase (GetStringField Obj ''cmd'') ''look''"
    and "\<not> EqualsIgnoreCase (GetStringField Obj ''cmd'') ''jump''"
    and "\<not> EqualsIgnoreCase (GetStringField Obj ''cmd'') ''sprint''"
    and "\<not> EqualsIgnoreCase (GetStringField Obj ''cmd'') ''screenshot''"
    and "\<not> EqualsIgnoreCase (GetStringField Obj ''cmd'') ''state''"
  shows "ProcessLine J Now Line S = S"
  using assms by (simp add: ProcessLine_def)

lemma GetStringField_not_string:
  "\<not> HasStringField Obj name \<Longrightarrow> GetStringField Obj name = []"
  by (simp add: HasStringField_def GetStringField_def split: option.splits FJsonValue.splits)

lemma empty_is_no_command:
  "\<not> EqualsIgnoreCase [] ''move''" "\<not> EqualsIgnoreCase [] ''look''"
  "\<not> EqualsIgnoreCase [] ''jump''" "\<not> EqualsIgnoreCase [] ''sprint''"
  "\<not> EqualsIgnoreCase [] ''screenshot''" "\<not> EqualsIgnoreCase [] ''state''"
  by (simp_all add: EqualsIgnoreCase_def)

lemma ProcessLine_Clients: "Clients (ProcessLine J Now Line S) = Clients S"
  by (simp add: ProcessLine_def Let_def WriteWorldStateToFile_def split: option.splits)

lemma ProcessLine_DestroyedSockets: "DestroyedSockets (ProcessLine J Now Line S) = DestroyedSockets S"
  by (simp add: ProcessLine_def Let_def WriteWorldStateToFile_def split: option.splits)

lemma foldl_ProcessLine_Clients:
  "Clients (foldl (\<lambda>s Line. ProcessLine J Now Line s) S Lines) = Clients S"
  by (induction Lines arbitrary: S) (simp_all add: ProcessLine_Clients)

section \<open>Framing is independent of how the bytes are chunked\<close>

declare Strands_SplitLines.simps [simp del]
declare DrainPendingData.simps [simp del]

lemma SplitLines_no_newline:
  "CHR 0x0A \<notin> set A \<Longrightarrow> Strands_SplitLines A out = (A, out)"
  by (subst Strands_SplitLines.simps) simp

lemma SplitLines_step:
  assumes "CHR 0x0A \<in> set A"
  shows "Strands_SplitLines A out =
     Strands_SplitLines (drop (Suc (length (takeWhile (\<lambda>c. c \<noteq> CHR 0x0A) A))) A)
       (out @ (if TrimStartAndEnd (takeWhile (\<lambda>c. c \<noteq> CHR 0x0A) A) = [] then []
               else [if last (TrimStartAndEnd (takeWhile (\<lambda>c. c \<noteq> CHR 0x0A) A)) = CHR 0x0D
                     then butlast (TrimStartAndEnd (takeWhile (\<lambda>c. c \<noteq> CHR 0x0A) A))
                     else TrimStartAndEnd (takeWhile (\<lambda>c. c \<noteq> CHR 0x0A) A)]))"
proof -
  have t: "take (length (takeWhile (\<lambda>c. c \<noteq> CHR 0x0A) A)) A = takeWhile (\<lambda>c. c \<noteq> CHR 0x0A) A"
    by (metis append_eq_conv_conj takeWhile_dropWhile_id)
  show ?thesis
    using assms by (subst Strands_SplitLines.simps) (simp add: Let_def t)
qed

lemma takeWhile_shorter:
  "x \<in> set A \<Longrightarrow> \<not> P x \<Longrightarrow> length (takeWhile P A) < length A"
  by (induction A) auto

lemma newline_rest_shorter:
  assumes "CHR 0x0A \<in> set A"
  shows "length (drop (Suc (length (takeWhile (\<lambda>c. c \<noteq> CHR 0x0A) A))) A) < length A"
  using length_pos_if_in_set [OF assms] by simp

lemma SplitLines_out:
  "Strands_SplitLines A out = (fst (Strands_SplitLines A []), out @ snd (Strands_SplitLines A []))"
proof (induction "length A" arbitrary: A out rule: less_induct)
  case less
  show ?case
  proof (cases "CHR 0x0A \<in> set A")
    case False
    then show ?thesis by (simp add: SplitLines_no_newline)
  next
    case True
    define R where "R = drop (Suc (length (takeWhile (\<lambda>c. c \<noteq> CHR 0x0A) A))) A"
    define f where "f = (if TrimStartAndEnd (takeWhile (\<lambda>c. c \<noteq> CHR 0x0A) A) = [] then []
               else [if last (TrimStartAndEnd (takeWhile (\<lambda>c. c \<noteq> CHR 0x0A) A)) = CHR 0x0D
                     then butlast (TrimStartAndEnd (takeWhile (\<lambda>c. c \<noteq> CHR 0x0A) A))
                     else TrimStartAndEnd (takeWhile (\<lambda>c. c \<noteq> CHR 0x0A) A)])"
    have sh: "length R < length A"
      unfolding R_def using True by (rule newline_rest_shorter)
    have a: "Strands_SplitLines A out = Strands_SplitLines R (out @ f)"
      unfolding R_def f_def by (rule SplitLines_step [OF True])
    have b: "Strands_SplitLines A [] = Strands_SplitLines R f"
      using SplitLines_step [OF True, of "[]"] by (simp add: R_def f_def)
    have c: "Strands_SplitLines R (out @ f)
        = (fst (Strands_SplitLines R []), (out @ f) @ snd (Strands_SplitLines R []))"
      by (rule less.hyps [OF sh])
    have d: "Strands_SplitLines R f = (fst (Strands_SplitLines R []), f @ snd (Strands_SplitLines R []))"
      by (rule less.hyps [OF sh])
    show ?thesis
      unfolding a b c d by simp
  qed
qed

lemma SplitLines_rest_no_newline:
  "CHR 0x0A \<notin> set (fst (Strands_SplitLines A out))"
proof (induction "length A" arbitrary: A out rule: less_induct)
  case less
  show ?case
  proof (cases "CHR 0x0A \<in> set A")
    case False
    then show ?thesis by (simp add: SplitLines_no_newline)
  next
    case True
    show ?thesis
      by (subst SplitLines_step [OF True]) (rule less.hyps [OF newline_rest_shorter [OF True]])
  qed
qed

lemma SplitLines_append:
  "Strands_SplitLines (A @ B) out =
     Strands_SplitLines (fst (Strands_SplitLines A out) @ B) (snd (Strands_SplitLines A out))"
proof (induction "length A" arbitrary: A out rule: less_induct)
  case less
  show ?case
  proof (cases "CHR 0x0A \<in> set A")
    case False
    then show ?thesis by (simp add: SplitLines_no_newline)
  next
    case True
    then have inAB: "CHR 0x0A \<in> set (A @ B)" by simp
    have tw: "takeWhile (\<lambda>c. c \<noteq> CHR 0x0A) (A @ B) = takeWhile (\<lambda>c. c \<noteq> CHR 0x0A) A"
      using True by simp
    have "length (takeWhile (\<lambda>c. c \<noteq> CHR 0x0A) A) < length A"
      using True by (simp add: takeWhile_shorter)
    then have dr: "drop (Suc (length (takeWhile (\<lambda>c. c \<noteq> CHR 0x0A) A))) (A @ B)
        = drop (Suc (length (takeWhile (\<lambda>c. c \<noteq> CHR 0x0A) A))) A @ B"
      by simp
    define R where "R = drop (Suc (length (takeWhile (\<lambda>c. c \<noteq> CHR 0x0A) A))) A"
    define f where "f = (if TrimStartAndEnd (takeWhile (\<lambda>c. c \<noteq> CHR 0x0A) A) = [] then []
               else [if last (TrimStartAndEnd (takeWhile (\<lambda>c. c \<noteq> CHR 0x0A) A)) = CHR 0x0D
                     then butlast (TrimStartAndEnd (takeWhile (\<lambda>c. c \<noteq> CHR 0x0A) A))
                     else TrimStartAndEnd (takeWhile (\<lambda>c. c \<noteq> CHR 0x0A) A)])"
    have sh: "length R < length A"
      unfolding R_def using True by (rule newline_rest_shorter)
    have a: "Strands_SplitLines (A @ B) out = Strands_SplitLines (R @ B) (out @ f)"
      using SplitLines_step [OF inAB, of out] by (simp only: tw dr R_def f_def)
    have b: "Strands_SplitLines A out = Strands_SplitLines R (out @ f)"
      unfolding R_def f_def by (rule SplitLines_step [OF True])
    have c: "Strands_SplitLines (R @ B) (out @ f) =
        Strands_SplitLines (fst (Strands_SplitLines R (out @ f)) @ B)
          (snd (Strands_SplitLines R (out @ f)))"
      by (rule less.hyps [OF sh])
    show ?thesis
      unfolding a b by (rule c)
  qed
qed

lemma DrainPendingData_empty:
  "PendingData Sock = [] \<Longrightarrow> DrainPendingData P Sock Pend S = (Sock, Pend, S)"
  by (subst DrainPendingData.simps) simp

lemma DrainPendingData_recv_fails:
  "\<not> RecvSucceeds Sock \<Longrightarrow> DrainPendingData P Sock Pend S = (Sock, Pend, S)"
  by (subst DrainPendingData.simps) (simp add: Let_def)

lemma DrainPendingData_step:
  assumes "PendingData Sock \<noteq> []" "RecvSucceeds Sock"
  shows "DrainPendingData P Sock Pend S =
     DrainPendingData P
       (Sock\<lparr>PendingData := drop (min (length (PendingData Sock)) 65536) (PendingData Sock)\<rparr>)
       (fst (Strands_SplitLines (Pend @ take (min (length (PendingData Sock)) 65536) (PendingData Sock)) []))
       (foldl (\<lambda>s Line. P Line s) S
          (snd (Strands_SplitLines (Pend @ take (min (length (PendingData Sock)) 65536) (PendingData Sock)) [])))"
  using assms by (subst DrainPendingData.simps) (simp add: Let_def)

lemma DrainPendingData_all:
  assumes "RecvSucceeds Sock" "CHR 0x0A \<notin> set Pend"
  shows "DrainPendingData P Sock Pend S =
     (Sock\<lparr>PendingData := []\<rparr>,
      fst (Strands_SplitLines (Pend @ PendingData Sock) []),
      foldl (\<lambda>s Line. P Line s) S (snd (Strands_SplitLines (Pend @ PendingData Sock) [])))"
  using assms
proof (induction "length (PendingData Sock)" arbitrary: Sock Pend S rule: less_induct)
  case less
  show ?case
  proof (cases "PendingData Sock = []")
    case True
    then have "Sock\<lparr>PendingData := []\<rparr> = Sock" by simp
    then show ?thesis
      using True less.prems by (simp add: DrainPendingData_empty SplitLines_no_newline)
  next
    case False
    define n where "n = min (length (PendingData Sock)) 65536"
    define Chunk where "Chunk = take n (PendingData Sock)"
    define Rest where "Rest = drop n (PendingData Sock)"
    define Sock' where "Sock' = Sock\<lparr>PendingData := Rest\<rparr>"
    define Pend' where "Pend' = fst (Strands_SplitLines (Pend @ Chunk) [])"
    define Lines where "Lines = snd (Strands_SplitLines (Pend @ Chunk) [])"
    have npos: "0 < n" using False by (simp add: n_def)
    have cr: "PendingData Sock = Chunk @ Rest" by (simp add: Chunk_def Rest_def)
    have sh: "length (PendingData Sock') < length (PendingData Sock)"
      using False npos by (simp add: Sock'_def Rest_def)
    have rs: "RecvSucceeds Sock'" using less.prems(1) by (simp add: Sock'_def)
    have nn: "CHR 0x0A \<notin> set Pend'" unfolding Pend'_def by (rule SplitLines_rest_no_newline)
    have step: "DrainPendingData P Sock Pend S =
        DrainPendingData P Sock' Pend' (foldl (\<lambda>s Line. P Line s) S Lines)"
      using DrainPendingData_step [OF False less.prems(1), of P Pend S]
      by (simp add: Sock'_def Pend'_def Lines_def Chunk_def Rest_def n_def)
    have ih: "DrainPendingData P Sock' Pend' (foldl (\<lambda>s Line. P Line s) S Lines) =
        (Sock'\<lparr>PendingData := []\<rparr>,
         fst (Strands_SplitLines (Pend' @ PendingData Sock') []),
         foldl (\<lambda>s Line. P Line s) (foldl (\<lambda>s Line. P Line s) S Lines)
           (snd (Strands_SplitLines (Pend' @ PendingData Sock') [])))"
      by (rule less.hyps [OF sh rs nn])
    have "Strands_SplitLines (Pend @ PendingData Sock) [] = Strands_SplitLines ((Pend @ Chunk) @ Rest) []"
      by (simp add: cr)
    also have "\<dots> = Strands_SplitLines (Pend' @ Rest) Lines"
      unfolding Pend'_def Lines_def by (rule SplitLines_append)
    also have "\<dots> = (fst (Strands_SplitLines (Pend' @ Rest) []),
                      Lines @ snd (Strands_SplitLines (Pend' @ Rest) []))"
      by (rule SplitLines_out)
    finally have whole: "Strands_SplitLines (Pend @ PendingData Sock) [] =
        (fst (Strands_SplitLines (Pend' @ Rest) []), Lines @ snd (Strands_SplitLines (Pend' @ Rest) []))" .
    have pr: "PendingData Sock' = Rest" by (simp add: Sock'_def)
    have s0: "Sock'\<lparr>PendingData := []\<rparr> = Sock\<lparr>PendingData := []\<rparr>" by (simp add: Sock'_def)
    show ?thesis
      unfolding step ih whole pr s0 by simp
  qed
qed

section \<open>Jumps and the sprint latch\<close>

lemma ApplyScheduledActions_character_bound:
  "(Strands_GetControlledCharacter (World (ApplyScheduledActions T dt S)) = None)
     = (Strands_GetControlledCharacter (World S) = None)"
  by (auto simp: ApplyScheduledActions_def Let_def
      GetControlledCharacter_UpdatePawn UpdateCharacter_def AddMovementInput_def
      AddControllerYawInput_def AddControllerPitchInput_def
      dest: GetControlledCharacter_is_character split: option.splits)

lemma ApplyScheduledActions_latch:
  "PendingSprintEnabled (ApplyScheduledActions T dt S) = PendingSprintEnabled S"
  by (simp add: ApplyScheduledActions_def Let_def)

lemma ApplyScheduledActions_speeds:
  "SprintWalkSpeed (ApplyScheduledActions T dt S) = SprintWalkSpeed S"
  "NormalWalkSpeed (ApplyScheduledActions T dt S) = NormalWalkSpeed S"
  by (simp_all add: ApplyScheduledActions_def Let_def)

lemma CharacterMovement_funpow_Jump: "CharacterMovement ((Jump ^^ n) c) = CharacterMovement c"
  by (induction n) (simp_all add: Jump_def)

lemma ApplyScheduledActions_MaxWalkSpeed:
  "ControlledMaxWalkSpeed (ApplyScheduledActions T dt S) = ControlledMaxWalkSpeed S"
  by (auto simp: ApplyScheduledActions_def Let_def ControlledMaxWalkSpeed_def
      GetControlledCharacter_UpdatePawn UpdateCharacter_def AddMovementInput_def
      AddControllerYawInput_def AddControllerPitchInput_def CharacterMovement_funpow_Jump
      dest: GetControlledCharacter_is_character split: option.splits)

lemma ApplySprintIfPending_latch:
  "PendingSprintEnabled (ApplySprintIfPending S) = None"
  by (simp add: ApplySprintIfPending_def Let_def split: option.splits)

lemma ApplySprintIfPending_speed:
  "ControlledMaxWalkSpeed (ApplySprintIfPending S) =
     (case PendingSprintEnabled S of
        None \<Rightarrow> ControlledMaxWalkSpeed S
      | Some b \<Rightarrow> map_option (\<lambda>v. if b then SprintWalkSpeed S else NormalWalkSpeed S)
                    (ControlledMaxWalkSpeed S))"
  by (auto simp: ApplySprintIfPending_def Let_def ControlledMaxWalkSpeed_def
      GetControlledCharacter_UpdatePawn UpdateCharacter_def SetMaxWalkSpeed_def
      option.map_comp comp_def
      dest: GetControlledCharacter_is_character split: option.splits)

lemma ApplySprintIfPending_none:
  "PendingSprintEnabled S = None \<Longrightarrow> ApplySprintIfPending S = S"
  by (simp add: ApplySprintIfPending_def)

lemma ApplySprintIfPending_jump:
  "PendingJumpCount (ApplySprintIfPending S) = PendingJumpCount S"
  "MoveActions (ApplySprintIfPending S) = MoveActions S"
  "bRunning (ApplySprintIfPending S) = bRunning S"
  "Clients (ApplySprintIfPending S) = Clients S"
  by (simp_all add: ApplySprintIfPending_def Let_def split: option.splits)

lemma ApplyScheduledActions_frame:
  "bRunning (ApplyScheduledActions T dt S) = bRunning S"
  "Clients (ApplyScheduledActions T dt S) = Clients S"
  "Listener (ApplyScheduledActions T dt S) = Listener S"
  by (simp_all add: ApplyScheduledActions_def Let_def)

text \<open>
  Claim C2, as amended. A resolve pass consumes the jump counter only when a character is
  bound: then a positive counter is applied as that many calls of \<open>Jump\<close> and reset
  to 0, so that one jump and one pass give one call and a second pass with no new jump
  gives none. With no character bound the pass leaves the counter as it is, and the jumps
  stay pending.
\<close>

theorem C2_jump_counter_consumed_when_character_bound:
  "PendingJumpCount (ApplyScheduledActions T dt S) =
     (if Strands_GetControlledCharacter (World S) \<noteq> None \<and> 0 < sint (PendingJumpCount S)
      then 0 else PendingJumpCount S)
   \<and> ControlledJumpCalls (ApplyScheduledActions T dt S) =
     (if Strands_GetControlledCharacter (World S) \<noteq> None \<and> 0 < sint (PendingJumpCount S)
      then ControlledJumpCalls S + nat (sint (PendingJumpCount S)) else ControlledJumpCalls S)
   \<and> (Strands_GetControlledCharacter (World (ApplyScheduledActions T dt S)) = None)
       = (Strands_GetControlledCharacter (World S) = None)"
  by (simp only: ApplyScheduledActions_jump_counter ApplyScheduledActions_jump_calls
      ApplyScheduledActions_character_bound simp_thms)

lemma OpenWorld_character:
  "Strands_GetControlledCharacter (Some OpenWorld) = Some StandingCharacter"
  by (simp add: Strands_GetControlledCharacter_def OpenWorld_def StandingCharacter_def)

lemma EmptyWorld_character:
  "Strands_GetControlledCharacter (Some EmptyWorld) = None"
  "Strands_GetControlledPawn (Some EmptyWorld) = None"
  by (simp_all add: Strands_GetControlledCharacter_def Strands_GetControlledPawn_def EmptyWorld_def)

lemma Reference_jump:
  \<open>ProcessLine ReferenceJson Now ''{"cmd":"jump"}'' S = S\<lparr>PendingJumpCount := PendingJumpCount S + 1\<rparr>\<close>
proof -
  have d: \<open>Deserialize ReferenceJson ''{"cmd":"jump"}'' = Some (map_of [(''cmd'', JString ''jump'')])\<close>
    by (simp add: ReferenceJson_def ref_jump)
  show ?thesis
    by (rule ProcessLine_jump [OF d]) (simp add: GetStringField_def EqualsIgnoreCase_def)
qed

theorem C2_witness:
  \<open>PendingJumpCount (ProcessLine ReferenceJson 0 ''{"cmd":"jump"}'' (InitialSubsystem (Some OpenWorld))) = 1
   \<and> ControlledJumpCalls (ApplyScheduledActions 1 (1 / 60)
        (ProcessLine ReferenceJson 0 ''{"cmd":"jump"}'' (InitialSubsystem (Some OpenWorld)))) = 1
   \<and> PendingJumpCount (ApplyScheduledActions 1 (1 / 60)
        (ProcessLine ReferenceJson 0 ''{"cmd":"jump"}'' (InitialSubsystem (Some OpenWorld)))) = 0
   \<and> ControlledJumpCalls (ApplyScheduledActions 2 (1 / 60) (ApplyScheduledActions 1 (1 / 60)
        (ProcessLine ReferenceJson 0 ''{"cmd":"jump"}'' (InitialSubsystem (Some OpenWorld))))) = 1
   \<and> PendingJumpCount (ApplyScheduledActions 2 (1 / 60) (ApplyScheduledActions 1 (1 / 60)
        (ProcessLine ReferenceJson 0 ''{"cmd":"jump"}'' (InitialSubsystem (Some OpenWorld))))) = 0\<close>
proof -
  define S1 where \<open>S1 = ProcessLine ReferenceJson 0 ''{"cmd":"jump"}'' (InitialSubsystem (Some OpenWorld))\<close>
  define S2 where "S2 = ApplyScheduledActions 1 (1 / 60) S1"
  have w1: "World S1 = Some OpenWorld" and c1: "PendingJumpCount S1 = 1"
    by (simp_all add: S1_def Reference_jump InitialSubsystem_def)
  have j1: "ControlledJumpCalls S1 = 0"
    by (simp add: ControlledJumpCalls_def w1 OpenWorld_character) (simp add: StandingCharacter_def)
  have b1: "Strands_GetControlledCharacter (World S1) \<noteq> None"
    by (simp add: w1 OpenWorld_character)
  note t1 = C2_jump_counter_consumed_when_character_bound [of 1 "1 / 60" S1]
  note t2 = C2_jump_counter_consumed_when_character_bound [of 2 "1 / 60" S2]
  have c2: "PendingJumpCount S2 = 0" and j2: "ControlledJumpCalls S2 = 1"
    and b2: "Strands_GetControlledCharacter (World S2) \<noteq> None"
    using t1 b1 c1 j1 by (simp_all add: S2_def)
  have c3: "PendingJumpCount (ApplyScheduledActions 2 (1 / 60) S2) = 0"
    and j3: "ControlledJumpCalls (ApplyScheduledActions 2 (1 / 60) S2) = 1"
    using t2 b2 c2 j2 by simp_all
  show ?thesis
    using c1 c2 j2 c3 j3 by (simp add: S1_def S2_def)
qed

text \<open>
  With no character bound, one jump followed by a resolve pass leaves the counter at 1.
\<close>

theorem C2_counterexample:
  \<open>PendingJumpCount (ApplyScheduledActions 1 (1 / 60)
      (ProcessLine ReferenceJson 0 ''{"cmd":"jump"}'' (InitialSubsystem (Some EmptyWorld)))) = 1
   \<and> PendingJumpCount (ApplyScheduledActions 1 (1 / 60)
      (ProcessLine ReferenceJson 0 ''{"cmd":"jump"}'' (InitialSubsystem (Some EmptyWorld)))) \<noteq> 0\<close>
  by (simp add: ApplyScheduledActions_jump_counter Reference_jump InitialSubsystem_def
      EmptyWorld_character)

lemma ref_sprint_true:
  \<open>ReferenceDeserialize ''{"cmd":"sprint","enabled":true}''
     = Some (map_of [(''cmd'', JString ''sprint''), (''enabled'', JBoolean True)])\<close>
  by (simp add: ReferenceDeserialize_def IsWhitespace_def)

lemma ref_sprint_false:
  \<open>ReferenceDeserialize ''{"cmd":"sprint","enabled":false}''
     = Some (map_of [(''cmd'', JString ''sprint''), (''enabled'', JBoolean False)])\<close>
  by (simp add: ReferenceDeserialize_def IsWhitespace_def)



lemma Reference_parts:
  "Deserialize ReferenceJson = ReferenceDeserialize" "TryGetBool ReferenceJson = EngineTryGetBool"
  by (simp_all add: ReferenceJson_def)

lemma OpenWorld_speed: "ControlledMaxWalkSpeed (InitialSubsystem (Some OpenWorld)) = Some 600"
  by (simp add: ControlledMaxWalkSpeed_def InitialSubsystem_def OpenWorld_character)
     (simp add: StandingCharacter_def)

text \<open>
  Claim C6. A sprint command overwrites the latch whatever it held (the last writer wins);
  the next resolve pass consumes the latch and leaves it unset; when a character with a
  movement component is bound, that pass sets its maximum walk speed to the sprint speed
  for \<open>true\<close> and to the normal speed for \<open>false\<close>; a further pass with no new sprint
  command leaves the speed as it is.
\<close>

theorem C6_sprint_latch_consumed_once:
  "(Deserialize J Line = Some Obj \<and> EqualsIgnoreCase (GetStringField Obj ''cmd'') ''sprint''
      \<and> Obj ''enabled'' = Some v \<and> TryGetBool J v = Some b
      \<longrightarrow> PendingSprintEnabled (ProcessLine J Now Line S) = Some b)
   \<and> PendingSprintEnabled (ApplySprintIfPending (ApplyScheduledActions T dt S)) = None
   \<and> ControlledMaxWalkSpeed (ApplySprintIfPending (ApplyScheduledActions T dt S)) =
       (case PendingSprintEnabled S of
          None \<Rightarrow> ControlledMaxWalkSpeed S
        | Some e \<Rightarrow> map_option (\<lambda>old. if e then SprintWalkSpeed S else NormalWalkSpeed S)
                      (ControlledMaxWalkSpeed S))
   \<and> ControlledMaxWalkSpeed
        (ApplySprintIfPending (ApplyScheduledActions T' dt'
           (ApplySprintIfPending (ApplyScheduledActions T dt S))))
       = ControlledMaxWalkSpeed (ApplySprintIfPending (ApplyScheduledActions T dt S))"
proof -
  have a: "Deserialize J Line = Some Obj \<and> EqualsIgnoreCase (GetStringField Obj ''cmd'') ''sprint''
      \<and> Obj ''enabled'' = Some v \<and> TryGetBool J v = Some b
      \<longrightarrow> PendingSprintEnabled (ProcessLine J Now Line S) = Some b"
    by (auto simp: ProcessLine_sprint)
  have b: "PendingSprintEnabled (ApplySprintIfPending (ApplyScheduledActions T dt S)) = None"
    by (rule ApplySprintIfPending_latch)
  have c: "ControlledMaxWalkSpeed (ApplySprintIfPending (ApplyScheduledActions T dt S)) =
       (case PendingSprintEnabled S of
          None \<Rightarrow> ControlledMaxWalkSpeed S
        | Some e \<Rightarrow> map_option (\<lambda>old. if e then SprintWalkSpeed S else NormalWalkSpeed S)
                      (ControlledMaxWalkSpeed S))"
    by (simp add: ApplySprintIfPending_speed ApplyScheduledActions_latch
        ApplyScheduledActions_speeds ApplyScheduledActions_MaxWalkSpeed split: option.splits)
  have d: "ControlledMaxWalkSpeed
        (ApplySprintIfPending (ApplyScheduledActions T' dt'
           (ApplySprintIfPending (ApplyScheduledActions T dt S))))
       = ControlledMaxWalkSpeed (ApplySprintIfPending (ApplyScheduledActions T dt S))"
    by (simp add: ApplySprintIfPending_speed [of "ApplyScheduledActions T' dt' _"]
        ApplyScheduledActions_latch ApplySprintIfPending_latch ApplyScheduledActions_MaxWalkSpeed)
  show ?thesis using a b c d by blast
qed

theorem C6_witness:
  \<open>PendingSprintEnabled
      (ProcessLine ReferenceJson 0 ''{"cmd":"sprint","enabled":true}''
         (ProcessLine ReferenceJson 0 ''{"cmd":"sprint","enabled":false}''
            (InitialSubsystem (Some OpenWorld)))) = Some True
   \<and> ControlledMaxWalkSpeed (ApplySprintIfPending (ApplyScheduledActions 1 (1 / 60)
        ((InitialSubsystem (Some OpenWorld))\<lparr>PendingSprintEnabled := Some True\<rparr>))) = Some 1000
   \<and> ControlledMaxWalkSpeed (ApplySprintIfPending (ApplyScheduledActions 2 (1 / 60)
        (ApplySprintIfPending (ApplyScheduledActions 1 (1 / 60)
          ((InitialSubsystem (Some OpenWorld))\<lparr>PendingSprintEnabled := Some True\<rparr>))))) = Some 1000\<close>
proof -
  define S0 where \<open>S0 = ProcessLine ReferenceJson 0 ''{"cmd":"sprint","enabled":false}''
            (InitialSubsystem (Some OpenWorld))\<close>
  define S1 where "S1 = (InitialSubsystem (Some OpenWorld))\<lparr>PendingSprintEnabled := Some True\<rparr>"
  have p: \<open>Deserialize ReferenceJson ''{"cmd":"sprint","enabled":true}''
      = Some (map_of [(''cmd'', JString ''sprint''), (''enabled'', JBoolean True)])\<close>
    by (simp add: Reference_parts ref_sprint_true)
  have q: "EqualsIgnoreCase (GetStringField (map_of [(''cmd'', JString ''sprint''), (''enabled'', JBoolean True)]) ''cmd'') ''sprint''"
    by (simp add: GetStringField_def EqualsIgnoreCase_def)
  have r: "map_of [(''cmd'', JString ''sprint''), (''enabled'', JBoolean True)] ''enabled'' = Some (JBoolean True)"
    by simp
  have t: "TryGetBool ReferenceJson (JBoolean True) = Some True"
    by (simp add: Reference_parts EngineTryGetBool_def)
  have s1: "PendingSprintEnabled S1 = Some True" "SprintWalkSpeed S1 = 1000"
    "ControlledMaxWalkSpeed S1 = Some 600"
    using OpenWorld_speed
    by (simp_all add: S1_def InitialSubsystem_def ControlledMaxWalkSpeed_def)
  note w1 = C6_sprint_latch_consumed_once
    [of ReferenceJson \<open>''{"cmd":"sprint","enabled":true}''\<close>
        "map_of [(''cmd'', JString ''sprint''), (''enabled'', JBoolean True)]"
        "JBoolean True" True 0 S0 1 "1 / 60" 2 "1 / 60"]
  note w2 = C6_sprint_latch_consumed_once [of ReferenceJson "[]" Map.empty JNull True 0 S1 1 "1 / 60" 2 "1 / 60"]
  have a: \<open>PendingSprintEnabled (ProcessLine ReferenceJson 0 ''{"cmd":"sprint","enabled":true}'' S0) = Some True\<close>
    by (rule w1 [THEN conjunct1, THEN mp]) (intro conjI p q r t)
  have b: "ControlledMaxWalkSpeed (ApplySprintIfPending (ApplyScheduledActions 1 (1 / 60) S1)) = Some 1000"
    using w2 s1 by simp
  have c: "ControlledMaxWalkSpeed (ApplySprintIfPending (ApplyScheduledActions 2 (1 / 60)
        (ApplySprintIfPending (ApplyScheduledActions 1 (1 / 60) S1)))) = Some 1000"
    using w2 b by simp
  show ?thesis using a b c by (simp add: S0_def S1_def)
qed

section \<open>Lines without effect\<close>

text \<open>
  Claim C10. A line that parses to an object with no string field \<open>cmd\<close> changes nothing:
  no pool, counter or latch changes and no screenshot or file is requested. The same holds
  for an object whose \<open>cmd\<close> is none of the six command names; both end in the last
  branch of \<open>ProcessLine\<close>, which only logs.
\<close>

theorem C10_no_cmd_string_is_ignored:
  assumes "Deserialize J Line = Some Obj"
  shows "(\<not> HasStringField Obj ''cmd'' \<longrightarrow> ProcessLine J Now Line S = S)
       \<and> ((\<forall>name \<in> set [''move'', ''look'', ''jump'', ''sprint'', ''screenshot'', ''state''].
              \<not> EqualsIgnoreCase (GetStringField Obj ''cmd'') name)
            \<longrightarrow> ProcessLine J Now Line S = S)"
proof (intro conjI impI)
  assume "\<not> HasStringField Obj ''cmd''"
  then have "GetStringField Obj ''cmd'' = []" by (rule GetStringField_not_string)
  then show "ProcessLine J Now Line S = S"
    using ProcessLine_unknown [OF assms] by (simp add: empty_is_no_command)
next
  assume "\<forall>name \<in> set [''move'', ''look'', ''jump'', ''sprint'', ''screenshot'', ''state''].
              \<not> EqualsIgnoreCase (GetStringField Obj ''cmd'') name"
  then show "ProcessLine J Now Line S = S"
    using ProcessLine_unknown [OF assms] by simp
qed

lemma ref_no_cmd:
  \<open>ReferenceDeserialize ''{"forward":1}'' = Some (map_of [(''forward'', JNumber 1)])\<close>
  by (simp add: ReferenceDeserialize_def IsWhitespace_def ReadNumber_def IsDigit_def
      DigitsVal_def DigitVal_def)

lemma ref_unknown_cmd:
  \<open>ReferenceDeserialize ''{"cmd":"fly"}'' = Some (map_of [(''cmd'', JString ''fly'')])\<close>
  by (simp add: ReferenceDeserialize_def IsWhitespace_def)

theorem C10_witness:
  \<open>ProcessLine ReferenceJson 0 ''{"forward":1}'' (InitialSubsystem (Some OpenWorld))
       = InitialSubsystem (Some OpenWorld)
   \<and> ProcessLine ReferenceJson 0 ''{"cmd":"fly"}'' (InitialSubsystem (Some OpenWorld))
       = InitialSubsystem (Some OpenWorld)\<close>
proof -
  have d1: \<open>Deserialize ReferenceJson ''{"forward":1}'' = Some (map_of [(''forward'', JNumber 1)])\<close>
    by (simp add: Reference_parts ref_no_cmd)
  have h1: "\<not> HasStringField (map_of [(''forward'', JNumber 1)]) ''cmd''"
    by (simp add: HasStringField_def)
  have d2: \<open>Deserialize ReferenceJson ''{"cmd":"fly"}'' = Some (map_of [(''cmd'', JString ''fly'')])\<close>
    by (simp add: Reference_parts ref_unknown_cmd)
  have h2: "\<forall>name \<in> set [''move'', ''look'', ''jump'', ''sprint'', ''screenshot'', ''state''].
              \<not> EqualsIgnoreCase (GetStringField (map_of [(''cmd'', JString ''fly'')]) ''cmd'') name"
    by (simp add: GetStringField_def EqualsIgnoreCase_def ToLower_def)
  show ?thesis
    using C10_no_cmd_string_is_ignored [OF d1, THEN conjunct1, THEN mp, OF h1]
      C10_no_cmd_string_is_ignored [OF d2, THEN conjunct2, THEN mp, OF h2]
    by blast
qed

lemma ApplySprintIfPending_frame:
  "Listener (ApplySprintIfPending S) = Listener S"
  "LookActions (ApplySprintIfPending S) = LookActions S"
  by (simp_all add: ApplySprintIfPending_def Let_def split: option.splits)

section \<open>Polling the clients\<close>

lemma foldl_ProcessLine_DestroyedSockets:
  "DestroyedSockets (foldl (\<lambda>s Line. ProcessLine J Now Line s) S Lines) = DestroyedSockets S"
  by (induction Lines arbitrary: S) (simp_all add: ProcessLine_DestroyedSockets)

lemma PollClientsLoop_step:
  assumes "Socket (Clients S ! i) = Some Sock" "RecvSucceeds Sock"
    and "CHR 0x0A \<notin> set (Pending (Clients S ! i))"
  shows "PollClientsLoop J Now (Suc i) S =
     PollClientsLoop J Now i
       (if ConnectionState Sock \<noteq> SCS_Connected
        then (foldl (\<lambda>s Line. ProcessLine J Now Line s) S
                (snd (Strands_SplitLines (Pending (Clients S ! i) @ PendingData Sock) [])))
               \<lparr>Clients := RemoveAtSwap i (Clients S),
                DestroyedSockets := DestroyedSockets S @ [Sock\<lparr>PendingData := []\<rparr>]\<rparr>
        else (foldl (\<lambda>s Line. ProcessLine J Now Line s) S
                (snd (Strands_SplitLines (Pending (Clients S ! i) @ PendingData Sock) [])))
               \<lparr>Clients := (Clients S)
                  [i := \<lparr>Socket = Some (Sock\<lparr>PendingData := []\<rparr>),
                         Pending = fst (Strands_SplitLines (Pending (Clients S ! i) @ PendingData Sock) [])\<rparr>]\<rparr>)"
  using assms
  by (simp add: DrainPendingData_all foldl_ProcessLine_Clients foldl_ProcessLine_DestroyedSockets)

lemma PollClientsLoop_MyProject_not_connected:
  assumes "Socket (Clients S ! i) = Some Sock" "ConnectionState Sock \<noteq> SCS_Connected"
  shows "PollClientsLoop_MyProject J Now (Suc i) S =
     PollClientsLoop_MyProject J Now i
       (S\<lparr>Clients := RemoveAtSwap i (Clients S), DestroyedSockets := DestroyedSockets S @ [Sock]\<rparr>)"
  using assms by simp

lemma PollClients_single:
  assumes "Clients S = [\<lparr>Socket = Some Sock, Pending = Pend\<rparr>]" "RecvSucceeds Sock"
    and "CHR 0x0A \<notin> set Pend"
  shows "PollClients J Now S =
       (if ConnectionState Sock \<noteq> SCS_Connected
        then (foldl (\<lambda>s Line. ProcessLine J Now Line s) S
                (snd (Strands_SplitLines (Pend @ PendingData Sock) [])))
               \<lparr>Clients := [],
                DestroyedSockets := DestroyedSockets S @ [Sock\<lparr>PendingData := []\<rparr>]\<rparr>
        else (foldl (\<lambda>s Line. ProcessLine J Now Line s) S
                (snd (Strands_SplitLines (Pend @ PendingData Sock) [])))
               \<lparr>Clients := [\<lparr>Socket = Some (Sock\<lparr>PendingData := []\<rparr>),
                         Pending = fst (Strands_SplitLines (Pend @ PendingData Sock) [])\<rparr>]\<rparr>)"
proof -
  have a: "Socket (Clients S ! 0) = Some Sock" "Pending (Clients S ! 0) = Pend"
    using assms(1) by simp_all
  have n: "CHR 0x0A \<notin> set (Pending (Clients S ! 0))" using a assms(3) by simp
  have "PollClients J Now S = PollClientsLoop J Now (Suc 0) S"
    by (simp add: PollClients_def assms(1))
  also have "\<dots> = (if ConnectionState Sock \<noteq> SCS_Connected
        then (foldl (\<lambda>s Line. ProcessLine J Now Line s) S
                (snd (Strands_SplitLines (Pend @ PendingData Sock) [])))
               \<lparr>Clients := [],
                DestroyedSockets := DestroyedSockets S @ [Sock\<lparr>PendingData := []\<rparr>]\<rparr>
        else (foldl (\<lambda>s Line. ProcessLine J Now Line s) S
                (snd (Strands_SplitLines (Pend @ PendingData Sock) [])))
               \<lparr>Clients := [\<lparr>Socket = Some (Sock\<lparr>PendingData := []\<rparr>),
                         Pending = fst (Strands_SplitLines (Pend @ PendingData Sock) [])\<rparr>]\<rparr>)"
    unfolding PollClientsLoop_step [OF a(1) assms(2) n]
    by (simp add: a assms(1) RemoveAtSwap_def)
  finally show ?thesis .
qed

lemma split_jump_then_move:
  "Strands_SplitLines JumpThenMoveStream [] = ([], [JumpLine, MoveForwardLine])"
  by code_simp

lemma split_not_json_then_jump:
  "Strands_SplitLines NotJsonThenJumpStream [] = ([], [''not json'', JumpLine])"
  by code_simp

lemma split_jump_only:
  "Strands_SplitLines (JumpLine @ [CHR 0x0A]) [] = ([], [JumpLine])"
  by code_simp

lemma last_dropWhile_nonempty:
  "dropWhile P xs \<noteq> [] \<Longrightarrow> last (dropWhile P xs) = last xs"
  by (induction xs) (auto split: if_splits)

lemma TrimStartAndEnd_ends:
  assumes "TrimStartAndEnd s \<noteq> []"
  shows "\<not> IsWhitespace (hd (TrimStartAndEnd s)) \<and> \<not> IsWhitespace (last (TrimStartAndEnd s))"
proof -
  define X where "X = dropWhile IsWhitespace s"
  define Y where "Y = dropWhile IsWhitespace (rev X)"
  have t: "TrimStartAndEnd s = rev Y" by (simp add: TrimStartAndEnd_def X_def Y_def)
  have y: "Y \<noteq> []" using assms t by simp
  then have x: "X \<noteq> []" by (auto simp: Y_def)
  have "last (rev Y) = hd Y" using y by (simp add: last_rev)
  moreover have "\<not> IsWhitespace (hd Y)" using y unfolding Y_def by (rule hd_dropWhile)
  moreover have "hd (rev Y) = last Y" using y by (simp add: hd_rev)
  moreover have "last Y = last (rev X)" using y unfolding Y_def by (rule last_dropWhile_nonempty)
  moreover have "last (rev X) = hd X" using x by (simp add: last_rev)
  moreover have "\<not> IsWhitespace (hd X)" using x unfolding X_def by (rule hd_dropWhile)
  ultimately show ?thesis by (simp add: t)
qed

lemma SplitLines_frames_invariant:
  assumes "\<forall>l \<in> set out. l \<noteq> [] \<and> \<not> IsWhitespace (hd l) \<and> \<not> IsWhitespace (last l)"
  shows "\<forall>l \<in> set (snd (Strands_SplitLines A out)).
           l \<noteq> [] \<and> \<not> IsWhitespace (hd l) \<and> \<not> IsWhitespace (last l)"
  using assms
proof (induction "length A" arbitrary: A out rule: less_induct)
  case less
  show ?case
  proof (cases "CHR 0x0A \<in> set A")
    case False
    then show ?thesis using less.prems by (simp add: SplitLines_no_newline)
  next
    case True
    define L where "L = TrimStartAndEnd (takeWhile (\<lambda>c. c \<noteq> CHR 0x0A) A)"
    define f where "f = (if L = [] then [] else [if last L = CHR 0x0D then butlast L else L])"
    have cr: "IsWhitespace (CHR 0x0D)" by (simp add: IsWhitespace_def)
    have ok: "\<forall>l \<in> set (out @ f). l \<noteq> [] \<and> \<not> IsWhitespace (hd l) \<and> \<not> IsWhitespace (last l)"
    proof (cases "L = []")
      case True
      then show ?thesis using less.prems by (simp add: f_def)
    next
      case False
      then have e: "\<not> IsWhitespace (hd L) \<and> \<not> IsWhitespace (last L)"
        unfolding L_def by (rule TrimStartAndEnd_ends)
      then have "last L \<noteq> CHR 0x0D" using cr by auto
      then have "f = [L]" using False by (simp add: f_def)
      then show ?thesis using less.prems False e by simp
    qed
    have "Strands_SplitLines A out =
        Strands_SplitLines (drop (Suc (length (takeWhile (\<lambda>c. c \<noteq> CHR 0x0A) A))) A) (out @ f)"
      unfolding f_def L_def by (rule SplitLines_step [OF True])
    then show ?thesis
      using less.hyps [OF newline_rest_shorter [OF True] ok] by simp
  qed
qed

lemma SplitLines_frames:
  "\<forall>l \<in> set (snd (Strands_SplitLines A [])).
     l \<noteq> [] \<and> \<not> IsWhitespace (hd l) \<and> \<not> IsWhitespace (last l)"
  by (rule SplitLines_frames_invariant) simp

lemma move_forward_fields:
  "GetStringField (map_of [(''cmd'', JString ''move''), (''forward'', JNumber 1)]) ''cmd'' = ''move''"
  "HasNumberField (map_of [(''cmd'', JString ''move''), (''forward'', JNumber 1)]) ''forward''"
  "GetNumberField (map_of [(''cmd'', JString ''move''), (''forward'', JNumber 1)]) ''forward'' = 1"
  "\<not> HasNumberField (map_of [(''cmd'', JString ''move''), (''forward'', JNumber 1)]) ''right''"
  "\<not> HasNumberField (map_of [(''cmd'', JString ''move''), (''forward'', JNumber 1)]) ''duration''"
  by (simp_all add: GetStringField_def HasNumberField_def GetNumberField_def)

lemma jump_fields:
  "EqualsIgnoreCase (GetStringField (map_of [(''cmd'', JString ''jump'')]) ''cmd'') ''jump''"
  by (simp add: GetStringField_def EqualsIgnoreCase_def)

text \<open>
  Claim C4. The stream of P5 is framed as two lines, in order, with the carriage return of
  the second removed; with a reader that parses the two lines as the objects they denote,
  the first is decoded as a jump and the second as a move with forward 1, right 0 and the
  default move duration, and reading the stream from a connected client has exactly these
  two effects. No frame of any stream is empty or begins or ends with white space.
\<close>

theorem C4_jump_then_move_stream:
  assumes "Deserialize J JumpLine = Some (map_of [(''cmd'', JString ''jump'')])"
    and "Deserialize J MoveForwardLine
          = Some (map_of [(''cmd'', JString ''move''), (''forward'', JNumber 1)])"
    and "Clients S = [\<lparr>Socket = Some Sock, Pending = []\<rparr>]"
    and "PendingData Sock = JumpThenMoveStream"
    and "RecvSucceeds Sock" and "ConnectionState Sock = SCS_Connected"
  shows "Strands_SplitLines JumpThenMoveStream [] = ([], [JumpLine, MoveForwardLine])
     \<and> ProcessLine J Now JumpLine S = S\<lparr>PendingJumpCount := PendingJumpCount S + 1\<rparr>
     \<and> ProcessLine J Now MoveForwardLine S =
         S\<lparr>MoveActions := MoveActions S @
              [\<lparr>Axis = (1, 0), MoveEndTime = Now + max 0 (DefaultMoveDuration S)\<rparr>]\<rparr>
     \<and> PollClients J Now S =
         S\<lparr>PendingJumpCount := PendingJumpCount S + 1,
            MoveActions := MoveActions S @
              [\<lparr>Axis = (1, 0), MoveEndTime = Now + max 0 (DefaultMoveDuration S)\<rparr>],
            Clients := [\<lparr>Socket = Some (Sock\<lparr>PendingData := []\<rparr>), Pending = []\<rparr>]\<rparr>
     \<and> (\<forall>A. \<forall>l \<in> set (snd (Strands_SplitLines A [])).
            l \<noteq> [] \<and> \<not> IsWhitespace (hd l) \<and> \<not> IsWhitespace (last l))"
proof -
  have j: "\<And>S'. ProcessLine J Now JumpLine S' = S'\<lparr>PendingJumpCount := PendingJumpCount S' + 1\<rparr>"
    by (rule ProcessLine_jump [OF assms(1) jump_fields])
  define O2 where "O2 = map_of [(''cmd'', JString ''move''), (''forward'', JNumber 1)]"
  have d2: "Deserialize J MoveForwardLine = Some O2"
    using assms(2) by (simp only: O2_def)
  have f2: "GetStringField O2 ''cmd'' = ''move''" "HasNumberField O2 ''forward''"
    "GetNumberField O2 ''forward'' = 1" "\<not> HasNumberField O2 ''right''"
    "\<not> HasNumberField O2 ''duration''"
    unfolding O2_def by (rule move_forward_fields)+
  have e2: "EqualsIgnoreCase (GetStringField O2 ''cmd'') ''move''"
    by (simp add: f2 EqualsIgnoreCase_def)
  have m: "\<And>S'. ProcessLine J Now MoveForwardLine S' =
         S'\<lparr>MoveActions := MoveActions S' @
              [\<lparr>Axis = (1, 0), MoveEndTime = Now + max 0 (DefaultMoveDuration S')\<rparr>]\<rparr>"
    by (simp add: ProcessLine_move [OF d2 e2] f2)
  have p: "PollClients J Now S =
         S\<lparr>PendingJumpCount := PendingJumpCount S + 1,
            MoveActions := MoveActions S @
              [\<lparr>Axis = (1, 0), MoveEndTime = Now + max 0 (DefaultMoveDuration S)\<rparr>],
            Clients := [\<lparr>Socket = Some (Sock\<lparr>PendingData := []\<rparr>), Pending = []\<rparr>]\<rparr>"
    using PollClients_single [OF assms(3) assms(5), of J Now] assms(4) assms(6)
    by (simp add: split_jump_then_move j m)
  show ?thesis
    using j m p split_jump_then_move SplitLines_frames by blast
qed

theorem C4_witness:
  "PollClients ReferenceJson 5
     ((InitialSubsystem (Some OpenWorld))
        \<lparr>bRunning := True,
         Clients := [\<lparr>Socket = Some (SocketWith JumpThenMoveStream SCS_Connected), Pending = []\<rparr>]\<rparr>)
   = (InitialSubsystem (Some OpenWorld))
        \<lparr>bRunning := True,
         PendingJumpCount := 1,
         MoveActions := [\<lparr>Axis = (1, 0), MoveEndTime = 21 / 4\<rparr>],
         Clients := [\<lparr>Socket = Some (SocketWith [] SCS_Connected), Pending = []\<rparr>]\<rparr>"
proof -
  define S where "S = (InitialSubsystem (Some OpenWorld))
        \<lparr>bRunning := True,
         Clients := [\<lparr>Socket = Some (SocketWith JumpThenMoveStream SCS_Connected), Pending = []\<rparr>]\<rparr>"
  have a: "Deserialize ReferenceJson JumpLine = Some (map_of [(''cmd'', JString ''jump'')])"
    by (simp add: Reference_parts JumpLine_def ref_jump)
  have b: "Deserialize ReferenceJson MoveForwardLine
          = Some (map_of [(''cmd'', JString ''move''), (''forward'', JNumber 1)])"
    by (simp add: Reference_parts MoveForwardLine_def ref_move)
  have c: "Clients S = [\<lparr>Socket = Some (SocketWith JumpThenMoveStream SCS_Connected), Pending = []\<rparr>]"
    by (simp add: S_def)
  have d: "PendingData (SocketWith JumpThenMoveStream SCS_Connected) = JumpThenMoveStream"
    "RecvSucceeds (SocketWith JumpThenMoveStream SCS_Connected)"
    "ConnectionState (SocketWith JumpThenMoveStream SCS_Connected) = SCS_Connected"
    by (simp_all add: SocketWith_def)
  from C4_jump_then_move_stream [OF a b c d, of 5]
  have "PollClients ReferenceJson 5 S =
      S\<lparr>PendingJumpCount := PendingJumpCount S + 1,
        MoveActions := MoveActions S @
          [\<lparr>Axis = (1, 0), MoveEndTime = 5 + max 0 (DefaultMoveDuration S)\<rparr>],
        Clients := [\<lparr>Socket = Some ((SocketWith JumpThenMoveStream SCS_Connected)\<lparr>PendingData := []\<rparr>),
                     Pending = []\<rparr>]\<rparr>"
    by blast
  then show ?thesis
    by (simp add: S_def InitialSubsystem_def SocketWith_def)
qed

text \<open>
  Claim C7. A line that the reader does not parse to a valid object leaves the whole
  subsystem as it was: the pools, the jump counter, the latch, and the client list with
  its sockets. When a connected client has sent the stream of P6, one poll drops the first
  line, counts one jump for the second, and keeps the connection.
\<close>

theorem C7_malformed_line_is_dropped:
  assumes "Deserialize J ''not json'' = None"
    and "Deserialize J JumpLine = Some (map_of [(''cmd'', JString ''jump'')])"
    and "Clients S = [\<lparr>Socket = Some Sock, Pending = []\<rparr>]"
    and "PendingData Sock = NotJsonThenJumpStream"
    and "RecvSucceeds Sock" and "ConnectionState Sock = SCS_Connected"
  shows "(\<forall>Line T S'. Deserialize J Line = None \<longrightarrow> ProcessLine J T Line S' = S')
     \<and> Strands_SplitLines NotJsonThenJumpStream [] = ([], [''not json'', JumpLine])
     \<and> PollClients J Now S =
         S\<lparr>PendingJumpCount := PendingJumpCount S + 1,
            Clients := [\<lparr>Socket = Some (Sock\<lparr>PendingData := []\<rparr>), Pending = []\<rparr>]\<rparr>"
proof -
  have n: "\<And>S'. ProcessLine J Now ''not json'' S' = S'"
    by (rule ProcessLine_no_json [OF assms(1)])
  have j: "\<And>S'. ProcessLine J Now JumpLine S' = S'\<lparr>PendingJumpCount := PendingJumpCount S' + 1\<rparr>"
    by (rule ProcessLine_jump [OF assms(2) jump_fields])
  have p: "PollClients J Now S =
         S\<lparr>PendingJumpCount := PendingJumpCount S + 1,
            Clients := [\<lparr>Socket = Some (Sock\<lparr>PendingData := []\<rparr>), Pending = []\<rparr>]\<rparr>"
    using PollClients_single [OF assms(3) assms(5), of J Now] assms(4) assms(6)
    by (simp add: split_not_json_then_jump n j)
  show ?thesis
    using p split_not_json_then_jump ProcessLine_no_json by blast
qed

theorem C7_witness:
  "PollClients ReferenceJson 5
     ((InitialSubsystem (Some OpenWorld))
        \<lparr>bRunning := True,
         Clients := [\<lparr>Socket = Some (SocketWith NotJsonThenJumpStream SCS_Connected), Pending = []\<rparr>]\<rparr>)
   = (InitialSubsystem (Some OpenWorld))
        \<lparr>bRunning := True,
         PendingJumpCount := 1,
         Clients := [\<lparr>Socket = Some (SocketWith [] SCS_Connected), Pending = []\<rparr>]\<rparr>
   \<and> ProcessLine ReferenceJson 5 ''not json'' (InitialSubsystem (Some OpenWorld))
       = InitialSubsystem (Some OpenWorld)"
proof -
  define S where "S = (InitialSubsystem (Some OpenWorld))
        \<lparr>bRunning := True,
         Clients := [\<lparr>Socket = Some (SocketWith NotJsonThenJumpStream SCS_Connected), Pending = []\<rparr>]\<rparr>"
  have a: "Deserialize ReferenceJson ''not json'' = None"
    by (simp add: Reference_parts ref_notjson)
  have b: "Deserialize ReferenceJson JumpLine = Some (map_of [(''cmd'', JString ''jump'')])"
    by (simp add: Reference_parts JumpLine_def ref_jump)
  have c: "Clients S = [\<lparr>Socket = Some (SocketWith NotJsonThenJumpStream SCS_Connected), Pending = []\<rparr>]"
    by (simp add: S_def)
  have d: "PendingData (SocketWith NotJsonThenJumpStream SCS_Connected) = NotJsonThenJumpStream"
    "RecvSucceeds (SocketWith NotJsonThenJumpStream SCS_Connected)"
    "ConnectionState (SocketWith NotJsonThenJumpStream SCS_Connected) = SCS_Connected"
    by (simp_all add: SocketWith_def)
  note t = C7_malformed_line_is_dropped [OF a b c d, of 5]
  from t have "PollClients ReferenceJson 5 S =
      S\<lparr>PendingJumpCount := PendingJumpCount S + 1,
        Clients := [\<lparr>Socket = Some ((SocketWith NotJsonThenJumpStream SCS_Connected)\<lparr>PendingData := []\<rparr>),
                     Pending = []\<rparr>]\<rparr>"
    by blast
  then have x: "PollClients ReferenceJson 5 S = (InitialSubsystem (Some OpenWorld))
        \<lparr>bRunning := True,
         PendingJumpCount := 1,
         Clients := [\<lparr>Socket = Some (SocketWith [] SCS_Connected), Pending = []\<rparr>]\<rparr>"
    by (simp add: S_def InitialSubsystem_def SocketWith_def)
  from t a have y: "ProcessLine ReferenceJson 5 ''not json'' (InitialSubsystem (Some OpenWorld))
       = InitialSubsystem (Some OpenWorld)"
    by blast
  show ?thesis using x y by (simp add: S_def)
qed

text \<open>
  Claim C3 on the two copies of \<open>PollClients\<close>. The peer has sent one jump command and
  closed. The copy under \<open>MyProject\<close> reads the connection state first: it removes the
  client without reading, and the jump is lost. The copy in \<open>CitySample\<close> reads and
  frames the bytes first: the jump is counted, and then the client is removed.
\<close>

theorem C3_MyProject_closes_before_reading:
  "PendingJumpCount (PollClients_MyProject ReferenceJson 0 SentThenClosed) = 0
   \<and> Clients (PollClients_MyProject ReferenceJson 0 SentThenClosed) = []
   \<and> DestroyedSockets (PollClients_MyProject ReferenceJson 0 SentThenClosed)
       = [SocketWith (JumpLine @ [CHR 0x0A]) SCS_NotConnected]
   \<and> PendingJumpCount (PollClients ReferenceJson 0 SentThenClosed) = 1
   \<and> Clients (PollClients ReferenceJson 0 SentThenClosed) = []
   \<and> DestroyedSockets (PollClients ReferenceJson 0 SentThenClosed)
       = [SocketWith [] SCS_NotConnected]"
proof -
  have c: "Clients SentThenClosed =
      [\<lparr>Socket = Some (SocketWith (JumpLine @ [CHR 0x0A]) SCS_NotConnected), Pending = []\<rparr>]"
    by (simp add: SentThenClosed_def)
  have s: "Socket (Clients SentThenClosed ! 0) = Some (SocketWith (JumpLine @ [CHR 0x0A]) SCS_NotConnected)"
    by (simp add: c)
  have d: "PendingData (SocketWith (JumpLine @ [CHR 0x0A]) SCS_NotConnected) = JumpLine @ [CHR 0x0A]"
    "RecvSucceeds (SocketWith (JumpLine @ [CHR 0x0A]) SCS_NotConnected)"
    "ConnectionState (SocketWith (JumpLine @ [CHR 0x0A]) SCS_NotConnected) \<noteq> SCS_Connected"
    by (simp_all add: SocketWith_def)
  have m: "PollClients_MyProject ReferenceJson 0 SentThenClosed =
      SentThenClosed\<lparr>Clients := [],
        DestroyedSockets := [SocketWith (JumpLine @ [CHR 0x0A]) SCS_NotConnected]\<rparr>"
    unfolding PollClients_MyProject_def c
    using PollClientsLoop_MyProject_not_connected [OF s d(3), of ReferenceJson 0]
    by (simp add: c RemoveAtSwap_def) (simp add: SentThenClosed_def InitialSubsystem_def)
  have j: "ProcessLine ReferenceJson 0 JumpLine SentThenClosed
      = SentThenClosed\<lparr>PendingJumpCount := PendingJumpCount SentThenClosed + 1\<rparr>"
    unfolding JumpLine_def by (rule Reference_jump)
  have p: "PollClients ReferenceJson 0 SentThenClosed =
      SentThenClosed\<lparr>PendingJumpCount := 1, Clients := [],
        DestroyedSockets := [SocketWith [] SCS_NotConnected]\<rparr>"
    using PollClients_single [OF c d(2), of ReferenceJson 0] d
    by (simp add: split_jump_only j) (simp add: SentThenClosed_def InitialSubsystem_def SocketWith_def)
  show ?thesis
    by (simp add: m p) (simp add: SentThenClosed_def InitialSubsystem_def)
qed

section \<open>The state document\<close>

lemma GetControlledCharacter_of_pawn:
  "Strands_GetControlledPawn W = Some P \<Longrightarrow>
   Strands_GetControlledCharacter W = (if AsCharacter P = None then None else Some P)"
  by (auto simp: Strands_GetControlledPawn_def Strands_GetControlledCharacter_def
      split: option.splits)

lemma GetControlledCharacter_no_pawn:
  "Strands_GetControlledPawn W = None \<Longrightarrow> Strands_GetControlledCharacter W = None"
  by (auto simp: Strands_GetControlledPawn_def Strands_GetControlledCharacter_def
      split: option.splits)

lemma BuildWorldState_reports:
  "ReportedTraces (BuildWorldState Now (Some w)) =
     (let C = Strands_GetControlledCharacter (Some w);
          T = ProbeTraces w C (case C of Some c \<Rightarrow> Some c | None \<Rightarrow> Strands_GetControlledPawn (Some w))
      in [Some (JNumber (ForwardKnee T)), Some (JNumber (ForwardWaist T)),
          Some (JNumber (ForwardChest T)), Some (JNumber (LeftWaist T)),
          Some (JNumber (RightWaist T)), Some (JNumber (DownDist T))])
   \<and> ReportedBlockedForward (BuildWorldState Now (Some w)) =
     (let C = Strands_GetControlledCharacter (Some w);
          T = ProbeTraces w C (case C of Some c \<Rightarrow> Some c | None \<Rightarrow> Strands_GetControlledPawn (Some w))
      in Some (JBoolean (0 < ForwardWaist T \<and> ForwardWaist T < 100)))"
  by (simp add: ReportedTraces_def ReportedBlockedForward_def BuildWorldState_def JField_def Let_def
      split: option.splits)


lemma ProbeTraces_pawn:
  "ProbeTraces w (if AsCharacter P = None then None else Some P) (Some P) =
     (let h = (case AsCharacter P of
                 None \<Rightarrow> 88
               | Some c \<Rightarrow> (case CapsuleHalfHeight c of None \<Rightarrow> 88 | Some x \<Rightarrow> x));
          origin = (\<lambda>z. VAdd (ActorLocation P) (VScale (ActorUpVector P) (z - h)))
      in \<lparr>ForwardKnee = TraceDist w (origin Knee) (ActorForwardVector P) RangeFwd,
          ForwardWaist = TraceDist w (origin Waist) (ActorForwardVector P) RangeFwd,
          ForwardChest = TraceDist w (origin Chest) (ActorForwardVector P) RangeFwd,
          LeftWaist = TraceDist w (origin Waist) (VNeg (ActorRightVector P)) RangeSide,
          RightWaist = TraceDist w (origin Waist) (ActorRightVector P) RangeSide,
          DownDist = TraceDist w (ActorLocation P) (VNeg (ActorUpVector P)) RangeDown\<rparr>)"
  by (simp add: ProbeTraces_def Let_def split: option.splits)

lemma TraceDist_nothing_hit:
  assumes "\<forall>Start End. LineTrace w Start End = None"
  shows "TraceDist w Start Dir Len = Len"
  using assms [rule_format] by (simp add: TraceDist_def)

text \<open>
  Claim C8, as amended. In a state document built while a pawn is bound, each of the six
  distances is the hit distance of its line trace, or the range of the probe when the
  trace hits nothing, and \<open>blocked.forward\<close> is true exactly when the forward waist
  distance is above 0 and below 100; with nothing in range the distances are the ranges
  200, 200, 200, 200, 200 and 300 and the flag is false. In a document built while no pawn
  is bound no trace is made: the six distances are 0 and the flag is false.
\<close>

theorem C8_reported_probe_distances:
  "(Strands_GetControlledPawn (Some w) = Some P \<longrightarrow>
      (let h = (case AsCharacter P of
                  None \<Rightarrow> 88
                | Some c \<Rightarrow> (case CapsuleHalfHeight c of None \<Rightarrow> 88 | Some x \<Rightarrow> x));
           origin = (\<lambda>z. VAdd (ActorLocation P) (VScale (ActorUpVector P) (z - h)));
           probe = (\<lambda>Start Dir Len.
                      case LineTrace w Start (VAdd Start (VScale Dir Len)) of
                        Some d \<Rightarrow> d | None \<Rightarrow> Len);
           fw = probe (origin 90) (ActorForwardVector P) 200
       in ReportedTraces (BuildWorldState Now (Some w)) =
            [Some (JNumber (probe (origin 50) (ActorForwardVector P) 200)),
             Some (JNumber fw),
             Some (JNumber (probe (origin 140) (ActorForwardVector P) 200)),
             Some (JNumber (probe (origin 90) (VNeg (ActorRightVector P)) 200)),
             Some (JNumber (probe (origin 90) (ActorRightVector P) 200)),
             Some (JNumber (probe (ActorLocation P) (VNeg (ActorUpVector P)) 300))]
          \<and> ReportedBlockedForward (BuildWorldState Now (Some w))
              = Some (JBoolean (0 < fw \<and> fw < 100))))
   \<and> (Strands_GetControlledPawn (Some w) = Some P \<and> (\<forall>Start End. LineTrace w Start End = None) \<longrightarrow>
        ReportedTraces (BuildWorldState Now (Some w)) =
          [Some (JNumber RangeFwd), Some (JNumber RangeFwd), Some (JNumber RangeFwd),
           Some (JNumber RangeSide), Some (JNumber RangeSide), Some (JNumber RangeDown)]
        \<and> ReportedBlockedForward (BuildWorldState Now (Some w)) = Some (JBoolean False))
   \<and> (Strands_GetControlledPawn (Some w) = None \<longrightarrow>
        ReportedTraces (BuildWorldState Now (Some w)) =
          [Some (JNumber 0), Some (JNumber 0), Some (JNumber 0),
           Some (JNumber 0), Some (JNumber 0), Some (JNumber 0)]
        \<and> ReportedBlockedForward (BuildWorldState Now (Some w)) = Some (JBoolean False))"
proof (intro conjI impI)
  assume p: "Strands_GetControlledPawn (Some w) = Some P"
  have c: "Strands_GetControlledCharacter (Some w) = (if AsCharacter P = None then None else Some P)"
    using p by (rule GetControlledCharacter_of_pawn)
  have pw: "(case Strands_GetControlledCharacter (Some w) of Some c \<Rightarrow> Some c
             | None \<Rightarrow> Strands_GetControlledPawn (Some w)) = Some P"
    by (simp add: c p)
  have T: "ProbeTraces w (Strands_GetControlledCharacter (Some w))
             (case Strands_GetControlledCharacter (Some w) of Some c \<Rightarrow> Some c
              | None \<Rightarrow> Strands_GetControlledPawn (Some w))
           = ProbeTraces w (if AsCharacter P = None then None else Some P) (Some P)"
    by (simp only: pw) (simp only: c)
  show "let h = (case AsCharacter P of
                  None \<Rightarrow> 88
                | Some c \<Rightarrow> (case CapsuleHalfHeight c of None \<Rightarrow> 88 | Some x \<Rightarrow> x));
           origin = (\<lambda>z. VAdd (ActorLocation P) (VScale (ActorUpVector P) (z - h)));
           probe = (\<lambda>Start Dir Len.
                      case LineTrace w Start (VAdd Start (VScale Dir Len)) of
                        Some d \<Rightarrow> d | None \<Rightarrow> Len);
           fw = probe (origin 90) (ActorForwardVector P) 200
       in ReportedTraces (BuildWorldState Now (Some w)) =
            [Some (JNumber (probe (origin 50) (ActorForwardVector P) 200)),
             Some (JNumber fw),
             Some (JNumber (probe (origin 140) (ActorForwardVector P) 200)),
             Some (JNumber (probe (origin 90) (VNeg (ActorRightVector P)) 200)),
             Some (JNumber (probe (origin 90) (ActorRightVector P) 200)),
             Some (JNumber (probe (ActorLocation P) (VNeg (ActorUpVector P)) 300))]
          \<and> ReportedBlockedForward (BuildWorldState Now (Some w))
              = Some (JBoolean (0 < fw \<and> fw < 100))"
    unfolding BuildWorldState_reports [THEN conjunct1] BuildWorldState_reports [THEN conjunct2]
      Let_def T ProbeTraces_pawn
    by (simp add: TraceDist_def Knee_def Waist_def Chest_def
        RangeFwd_def RangeSide_def RangeDown_def)
next
  assume a: "Strands_GetControlledPawn (Some w) = Some P \<and> (\<forall>Start End. LineTrace w Start End = None)"
  then have p: "Strands_GetControlledPawn (Some w) = Some P"
    and n: "\<forall>Start End. LineTrace w Start End = None" by simp_all
  have c: "Strands_GetControlledCharacter (Some w) = (if AsCharacter P = None then None else Some P)"
    using p by (rule GetControlledCharacter_of_pawn)
  have pw: "(case Strands_GetControlledCharacter (Some w) of Some c \<Rightarrow> Some c
             | None \<Rightarrow> Strands_GetControlledPawn (Some w)) = Some P"
    by (simp add: c p)
  have T: "ProbeTraces w (Strands_GetControlledCharacter (Some w))
             (case Strands_GetControlledCharacter (Some w) of Some c \<Rightarrow> Some c
              | None \<Rightarrow> Strands_GetControlledPawn (Some w))
           = ProbeTraces w (if AsCharacter P = None then None else Some P) (Some P)"
    by (simp only: pw) (simp only: c)
  have r: "ReportedTraces (BuildWorldState Now (Some w)) =
          [Some (JNumber RangeFwd), Some (JNumber RangeFwd), Some (JNumber RangeFwd),
           Some (JNumber RangeSide), Some (JNumber RangeSide), Some (JNumber RangeDown)]"
    unfolding BuildWorldState_reports [THEN conjunct1] Let_def T ProbeTraces_pawn
    by (simp add: TraceDist_nothing_hit [OF n])
  have b: "ReportedBlockedForward (BuildWorldState Now (Some w)) = Some (JBoolean False)"
    unfolding BuildWorldState_reports [THEN conjunct2] Let_def T ProbeTraces_pawn
    by (simp add: TraceDist_nothing_hit [OF n] RangeFwd_def)
  show "ReportedTraces (BuildWorldState Now (Some w)) =
          [Some (JNumber RangeFwd), Some (JNumber RangeFwd), Some (JNumber RangeFwd),
           Some (JNumber RangeSide), Some (JNumber RangeSide), Some (JNumber RangeDown)]"
    by (rule r)
  show "ReportedBlockedForward (BuildWorldState Now (Some w)) = Some (JBoolean False)"
    by (rule b)
next
  assume p: "Strands_GetControlledPawn (Some w) = None"
  have c: "Strands_GetControlledCharacter (Some w) = None"
    using p by (rule GetControlledCharacter_no_pawn)
  show "ReportedTraces (BuildWorldState Now (Some w)) =
          [Some (JNumber 0), Some (JNumber 0), Some (JNumber 0),
           Some (JNumber 0), Some (JNumber 0), Some (JNumber 0)]"
    unfolding BuildWorldState_reports [THEN conjunct1]
    by (simp add: c p ProbeTraces_def)
  show "ReportedBlockedForward (BuildWorldState Now (Some w)) = Some (JBoolean False)"
    unfolding BuildWorldState_reports [THEN conjunct2]
    by (simp add: c p ProbeTraces_def)
qed

lemma OpenWorld_pawn: "Strands_GetControlledPawn (Some OpenWorld) = Some StandingCharacter"
  by (simp add: Strands_GetControlledPawn_def OpenWorld_def)

theorem C8_witness:
  "ReportedTraces (BuildWorldState 0 (Some OpenWorld)) =
     [Some (JNumber 200), Some (JNumber 200), Some (JNumber 200),
      Some (JNumber 200), Some (JNumber 200), Some (JNumber 300)]
   \<and> ReportedBlockedForward (BuildWorldState 0 (Some OpenWorld)) = Some (JBoolean False)
   \<and> ReportedTraces (BuildWorldState 0 (Some EmptyWorld)) =
     [Some (JNumber 0), Some (JNumber 0), Some (JNumber 0),
      Some (JNumber 0), Some (JNumber 0), Some (JNumber 0)]
   \<and> ReportedBlockedForward (BuildWorldState 0 (Some EmptyWorld)) = Some (JBoolean False)"
proof -
  have n: "\<forall>Start End. LineTrace OpenWorld Start End = None"
    by (simp add: OpenWorld_def)
  note t1 = C8_reported_probe_distances [of OpenWorld StandingCharacter 0, THEN conjunct2, THEN conjunct1]
  note t2 = C8_reported_probe_distances [of EmptyWorld StandingCharacter 0, THEN conjunct2, THEN conjunct2]
  from t1 OpenWorld_pawn n
  have a: "ReportedTraces (BuildWorldState 0 (Some OpenWorld)) =
          [Some (JNumber RangeFwd), Some (JNumber RangeFwd), Some (JNumber RangeFwd),
           Some (JNumber RangeSide), Some (JNumber RangeSide), Some (JNumber RangeDown)]
        \<and> ReportedBlockedForward (BuildWorldState 0 (Some OpenWorld)) = Some (JBoolean False)"
    by blast
  from t2 EmptyWorld_character(2)
  have b: "ReportedTraces (BuildWorldState 0 (Some EmptyWorld)) =
     [Some (JNumber 0), Some (JNumber 0), Some (JNumber 0),
      Some (JNumber 0), Some (JNumber 0), Some (JNumber 0)]
   \<and> ReportedBlockedForward (BuildWorldState 0 (Some EmptyWorld)) = Some (JBoolean False)"
    by blast
  show ?thesis
    using a b by (simp add: RangeFwd_def RangeSide_def RangeDown_def)
qed

text \<open>
  With no pawn bound and nothing to hit anywhere, the document reports the forward waist
  distance 0, which is not the range of that probe.
\<close>

theorem C8_counterexample:
  "ReportedTraces (BuildWorldState 0 (Some EmptyWorld)) ! 1 = Some (JNumber 0)
   \<and> ReportedTraces (BuildWorldState 0 (Some EmptyWorld)) ! 1 \<noteq> Some (JNumber RangeFwd)
   \<and> LineTrace EmptyWorld (0, 0, 0) (200, 0, 0) = None"
proof -
  have c: "Strands_GetControlledCharacter (Some EmptyWorld) = None"
    and p: "Strands_GetControlledPawn (Some EmptyWorld) = None"
    by (rule EmptyWorld_character)+
  have "ReportedTraces (BuildWorldState 0 (Some EmptyWorld)) =
          [Some (JNumber 0), Some (JNumber 0), Some (JNumber 0),
           Some (JNumber 0), Some (JNumber 0), Some (JNumber 0)]"
    unfolding BuildWorldState_reports [THEN conjunct1]
    by (simp add: c p ProbeTraces_def)
  then show ?thesis
    by (simp add: RangeFwd_def EmptyWorld_def)
qed

section \<open>The resolved move axis\<close>

lemma MovementInputs_funpow_Jump: "MovementInputs ((Jump ^^ n) c) = MovementInputs c"
  by (induction n) (simp_all add: Jump_def)

lemma ApplyScheduledActions_movement_inputs:
  "ControlledMovementInputs (ApplyScheduledActions T dt S) =
     ControlledMovementInputs S @
       (case Strands_GetControlledCharacter (World S) of
          None \<Rightarrow> []
        | Some P \<Rightarrow>
            if IsNearlyZero (snd (ResolveMove T (MoveActions S))) then []
            else [(ActorForwardVector P, fst (snd (ResolveMove T (MoveActions S)))),
                  (ActorRightVector P, snd (snd (ResolveMove T (MoveActions S))))])"
  by (auto simp: ApplyScheduledActions_def Let_def ControlledMovementInputs_def
      GetControlledCharacter_UpdatePawn UpdateCharacter_def AddMovementInput_def
      AddControllerYawInput_def AddControllerPitchInput_def MovementInputs_funpow_Jump
      dest: GetControlledCharacter_is_character split: option.splits)

lemma V2Add_SumRates_snoc:
  "V2Add ax (SumRates (xs @ [a])) = V2Add (V2Add ax (Rate a)) (SumRates xs)"
  by (simp add: V2Add_def SumRates_def)

lemma SweepLookActions_invariant:
  assumes "k \<le> length acts"
    and "\<forall>j. k \<le> j \<and> j < length acts \<longrightarrow> UnexpiredLook Now (acts ! j)"
  shows "mset (fst (SweepLookActions Now k acts ax)) = mset (filter (UnexpiredLook Now) acts)
       \<and> snd (SweepLookActions Now k acts ax)
           = V2Add ax (SumRates (filter (UnexpiredLook Now) (take k acts)))"
  using assms
proof (induction k arbitrary: acts ax)
  case 0
  then have "\<forall>a \<in> set acts. UnexpiredLook Now a"
    by (auto simp: in_set_conv_nth)
  then have "filter (UnexpiredLook Now) acts = acts" by simp
  then show ?case by (simp add: V2Add_def SumRates_def)
next
  case (Suc k)
  then have klt: "k < length acts" by simp
  have tk: "take (Suc k) acts = take k acts @ [acts ! k]"
    using klt by (simp add: take_Suc_conv_app_nth)
  show ?case
  proof (cases "LookEndTime (acts ! k) \<le> Now")
    case True
    let ?acts' = "RemoveAtSwap k acts"
    have len: "length ?acts' = length acts - 1"
      using klt by (rule RemoveAtSwap_length)
    have le': "k \<le> length ?acts'" using klt len by simp
    have inv': "\<forall>j. k \<le> j \<and> j < length ?acts' \<longrightarrow> UnexpiredLook Now (?acts' ! j)"
    proof (intro allI impI)
      fix j assume j: "k \<le> j \<and> j < length ?acts'"
      then have j1: "j < length acts - 1" using len by simp
      show "UnexpiredLook Now (?acts' ! j)"
      proof (cases "j = k")
        case True
        have "acts \<noteq> []" using klt by auto
        then have "last acts = acts ! (length acts - 1)" by (rule last_conv_nth)
        moreover have "UnexpiredLook Now (acts ! (length acts - 1))"
          using Suc.prems(2) j1 True by simp
        ultimately show ?thesis using klt j1 True by (simp add: RemoveAtSwap_nth)
      next
        case False
        then have "UnexpiredLook Now (acts ! j)" using Suc.prems(2) j j1 by simp
        then show ?thesis using klt j1 False by (simp add: RemoveAtSwap_nth)
      qed
    qed
    have dead: "\<not> UnexpiredLook Now (acts ! k)" using True by (simp add: UnexpiredLook_def)
    have "filter_mset (UnexpiredLook Now) (mset acts)
        = filter_mset (UnexpiredLook Now) (add_mset (acts ! k) (mset ?acts'))"
      using RemoveAtSwap_mset [OF klt] by simp
    then have m: "mset (filter (UnexpiredLook Now) acts) = mset (filter (UnexpiredLook Now) ?acts')"
      using dead by simp
    have t: "filter (UnexpiredLook Now) (take (Suc k) acts) = filter (UnexpiredLook Now) (take k ?acts')"
      using dead tk RemoveAtSwap_take [OF klt] by simp
    show ?thesis
      using Suc.IH [OF le' inv', of ax] True m t by simp
  next
    case False
    then have live: "UnexpiredLook Now (acts ! k)" by (simp add: UnexpiredLook_def)
    have le': "k \<le> length acts" using klt by simp
    have inv': "\<forall>j. k \<le> j \<and> j < length acts \<longrightarrow> UnexpiredLook Now (acts ! j)"
    proof (intro allI impI)
      fix j assume j: "k \<le> j \<and> j < length acts"
      show "UnexpiredLook Now (acts ! j)"
      proof (cases "j = k")
        case True then show ?thesis using live by simp
      next
        case False then show ?thesis using Suc.prems(2) j by simp
      qed
    qed
    have t: "filter (UnexpiredLook Now) (take (Suc k) acts)
        = filter (UnexpiredLook Now) (take k acts) @ [acts ! k]"
      using live tk by simp
    show ?thesis
      using Suc.IH [OF le' inv', of "V2Add ax (Rate (acts ! k))"] False t
      by (simp add: V2Add_SumRates_snoc)
  qed
qed

lemma SweepLookActions_all:
  "mset (fst (SweepLookActions Now (length acts) acts (0, 0))) = mset (filter (UnexpiredLook Now) acts)
   \<and> snd (SweepLookActions Now (length acts) acts (0, 0)) = SumRates (filter (UnexpiredLook Now) acts)"
proof -
  have "V2Add (0, 0) (SumRates (filter (UnexpiredLook Now) acts)) = SumRates (filter (UnexpiredLook Now) acts)"
    by (simp add: V2Add_def)
  moreover have "\<forall>j. length acts \<le> j \<and> j < length acts \<longrightarrow> UnexpiredLook Now (acts ! j)"
    by auto
  ultimately show ?thesis
    using SweepLookActions_invariant [of "length acts" acts Now "(0, 0)"] by simp
qed


lemma ResolveMove_result:
  "mset (fst (ResolveMove T acts)) = mset (filter (\<lambda>a. T < MoveEndTime a) acts)
   \<and> snd (ResolveMove T acts) =
       (max (- 1) (min 1 (sum_list (map (\<lambda>a. fst (Axis a)) (filter (\<lambda>a. T < MoveEndTime a) acts)))),
        max (- 1) (min 1 (sum_list (map (\<lambda>a. snd (Axis a)) (filter (\<lambda>a. T < MoveEndTime a) acts)))))"
proof -
  have u: "Unexpired T = (\<lambda>a. T < MoveEndTime a)"
    by (rule ext) (simp add: Unexpired_def)
  obtain acts' ax where sw: "SweepMoveActions T (length acts) acts (0, 0) = (acts', ax)"
    by (cases "SweepMoveActions T (length acts) acts (0, 0)")
  from SweepMoveActions_all [of T acts] sw
  have a: "mset acts' = mset (filter (Unexpired T) acts)"
    and b: "ax = SumAxes (filter (Unexpired T) acts)"
    by simp_all
  have r: "ResolveMove T acts = (acts', (Clamp (fst ax) (- 1) 1, Clamp (snd ax) (- 1) 1))"
    by (simp add: ResolveMove_def sw)
  show ?thesis
    using a b by (simp add: r SumAxes_def u Clamp_unit)
qed

lemma ResolveLook_result:
  "mset (fst (ResolveLook T acts)) = mset (filter (\<lambda>a. T < LookEndTime a) acts)
   \<and> snd (ResolveLook T acts) =
       (sum_list (map (\<lambda>a. fst (Rate a)) (filter (\<lambda>a. T < LookEndTime a) acts)),
        sum_list (map (\<lambda>a. snd (Rate a)) (filter (\<lambda>a. T < LookEndTime a) acts)))"
proof -
  have u: "UnexpiredLook T = (\<lambda>a. T < LookEndTime a)"
    by (rule ext) (simp add: UnexpiredLook_def)
  show ?thesis
    using SweepLookActions_all [of T acts] by (simp add: ResolveLook_def SumRates_def u)
qed

lemma ApplyScheduledActions_LookActions:
  "LookActions (ApplyScheduledActions T dt S) = fst (ResolveLook T (LookActions S))"
  by (simp add: ApplyScheduledActions_def Let_def)

lemma GetControlledCharacter_pawn:
  "Strands_GetControlledCharacter W = Some P \<Longrightarrow> Strands_GetControlledPawn W = Some P"
  by (auto simp: Strands_GetControlledPawn_def Strands_GetControlledCharacter_def
      split: option.splits)

lemma ApplyScheduledActions_look_inputs:
  "ControlledYawInputs (ApplyScheduledActions T dt S) =
     ControlledYawInputs S @
       (if Strands_GetControlledPawn (World S) \<noteq> None \<and> \<not> IsNearlyZero (snd (ResolveLook T (LookActions S)))
        then [fst (snd (ResolveLook T (LookActions S))) * dt] else [])
   \<and> ControlledPitchInputs (ApplyScheduledActions T dt S) =
     ControlledPitchInputs S @
       (if Strands_GetControlledPawn (World S) \<noteq> None \<and> \<not> IsNearlyZero (snd (ResolveLook T (LookActions S)))
        then [snd (snd (ResolveLook T (LookActions S))) * dt] else [])"
  by (auto simp: ApplyScheduledActions_def Let_def ControlledYawInputs_def ControlledPitchInputs_def
      GetControlledPawn_UpdatePawn UpdateCharacter_def AddMovementInput_def
      AddControllerYawInput_def AddControllerPitchInput_def
      dest: GetControlledCharacter_pawn split: option.splits)

lemma ApplySprintIfPending_look_inputs:
  "ControlledYawInputs (ApplySprintIfPending S) = ControlledYawInputs S"
  "ControlledPitchInputs (ApplySprintIfPending S) = ControlledPitchInputs S"
  "ControlledMovementInputs (ApplySprintIfPending S) = ControlledMovementInputs S"
  "ControlledJumpCalls (ApplySprintIfPending S) = ControlledJumpCalls S"
  by (auto simp: ApplySprintIfPending_def Let_def ControlledYawInputs_def ControlledPitchInputs_def
      ControlledMovementInputs_def ControlledJumpCalls_def
      GetControlledPawn_UpdatePawn GetControlledCharacter_UpdatePawn
      UpdateCharacter_def SetMaxWalkSpeed_def
      dest: GetControlledCharacter_is_character split: option.splits)

text \<open>
  Claim C1. For every move pool and every resolve time \<open>T\<close>, the resolved move axis is
  the componentwise sum of the axes of the actions whose end time is strictly after \<open>T\<close>,
  each component then brought into \<open>[-1, 1]\<close> on its own: a sum below -1 gives -1, a sum
  above 1 gives 1. The actions with end time at most \<open>T\<close> add nothing to the sum, and the
  pool after the pass holds exactly the others. The axis is what the pass hands to
  \<open>AddMovementInput\<close> on a bound character when it is not nearly zero.
\<close>

theorem C1_resolved_move_axis:
  "(let live = filter (\<lambda>a. T < MoveEndTime a) (MoveActions S);
        X = max (- 1) (min 1 (sum_list (map (\<lambda>a. fst (Axis a)) live)));
        Y = max (- 1) (min 1 (sum_list (map (\<lambda>a. snd (Axis a)) live)))
    in snd (ResolveMove T (MoveActions S)) = (X, Y)
       \<and> - 1 \<le> X \<and> X \<le> 1 \<and> - 1 \<le> Y \<and> Y \<le> 1
       \<and> mset (MoveActions (ApplyScheduledActions T dt S)) = mset live
       \<and> ControlledMovementInputs (ApplyScheduledActions T dt S) =
           ControlledMovementInputs S @
             (case Strands_GetControlledCharacter (World S) of
                None \<Rightarrow> []
              | Some P \<Rightarrow>
                  if IsNearlyZero (X, Y) then []
                  else [(ActorForwardVector P, X), (ActorRightVector P, Y)]))"
proof -
  note r = ResolveMove_result [of T "MoveActions S"]
  have m: "mset (MoveActions (ApplyScheduledActions T dt S))
      = mset (filter (\<lambda>a. T < MoveEndTime a) (MoveActions S))"
    using r by (simp add: ApplyScheduledActions_MoveActions)
  show ?thesis
    unfolding Let_def
    using r m ApplyScheduledActions_movement_inputs [of T dt S]
    by (simp split: option.splits)
qed

section \<open>The \<open>enabled\<close> field of a sprint command\<close>





section \<open>Stopping the server\<close>

lemma Tick_stopped:
  "\<not> bRunning X \<Longrightarrow>
   Tick J NowPoll NowApply dt X = ApplySprintIfPending (ApplyScheduledActions NowApply dt X)"
  by (simp add: Tick_def)

lemma Ticks_stopped:
  assumes "\<not> bRunning X" "Clients X = []" "\<not> Listener X"
  shows "\<not> bRunning (Ticks J frames X) \<and> Clients (Ticks J frames X) = []
       \<and> \<not> Listener (Ticks J frames X)"
  using assms
proof (induction frames arbitrary: X)
  case Nil
  then show ?case by simp
next
  case (Cons f frames)
  obtain NowPoll NowApply dt where f: "f = (NowPoll, NowApply, dt)" by (cases f)
  let ?Y = "Tick J NowPoll NowApply dt X"
  have y: "?Y = ApplySprintIfPending (ApplyScheduledActions NowApply dt X)"
    using Cons.prems(1) by (rule Tick_stopped)
  have "\<not> bRunning ?Y" "Clients ?Y = []" "\<not> Listener ?Y"
    using Cons.prems
    by (simp_all add: y ApplySprintIfPending_jump ApplySprintIfPending_frame
        ApplyScheduledActions_frame)
  then show ?case
    using Cons.IH [of ?Y] by (simp add: f)
qed

lemma StopServer_fields:
  "Clients (StopServer S) = []" "\<not> Listener (StopServer S)" "\<not> bRunning (StopServer S)"
  "DestroyedSockets (StopServer S) = DestroyedSockets S @ List.map_filter Socket (Clients S)"
  "MoveActions (StopServer S) = MoveActions S" "LookActions (StopServer S) = LookActions S"
  "PendingJumpCount (StopServer S) = PendingJumpCount S"
  "PendingSprintEnabled (StopServer S) = PendingSprintEnabled S"
  "DefaultMoveDuration (StopServer S) = DefaultMoveDuration S"
  "DefaultLookDuration (StopServer S) = DefaultLookDuration S"
  "NormalWalkSpeed (StopServer S) = NormalWalkSpeed S"
  "SprintWalkSpeed (StopServer S) = SprintWalkSpeed S"
  "World (StopServer S) = World S"
  "ScreenshotRequests (StopServer S) = ScreenshotRequests S"
  "WrittenFiles (StopServer S) = WrittenFiles S"
  "ProjectSavedDir (StopServer S) = ProjectSavedDir S"
  by (simp_all add: StopServer_def)

lemma stopped_tick_effects:
  assumes "\<not> bRunning X"
  shows "(let Y = Tick J NowPoll NowApply dt X;
        liveM = filter (\<lambda>a. NowApply < MoveEndTime a) (MoveActions X);
        liveL = filter (\<lambda>a. NowApply < LookEndTime a) (LookActions X);
        MoveAxis = (max (- 1) (min 1 (sum_list (map (\<lambda>a. fst (Axis a)) liveM))),
                    max (- 1) (min 1 (sum_list (map (\<lambda>a. snd (Axis a)) liveM))));
        LookRate = (sum_list (map (\<lambda>a. fst (Rate a)) liveL),
                    sum_list (map (\<lambda>a. snd (Rate a)) liveL));
        jumps = (Strands_GetControlledCharacter (World X) \<noteq> None \<and> 0 < sint (PendingJumpCount X));
        looks = (Strands_GetControlledPawn (World X) \<noteq> None \<and> \<not> IsNearlyZero LookRate)
    in Y = ApplySprintIfPending (ApplyScheduledActions NowApply dt X)
       \<and> mset (MoveActions Y) = mset liveM
       \<and> mset (LookActions Y) = mset liveL
       \<and> ControlledMovementInputs Y =
           ControlledMovementInputs X @
             (case Strands_GetControlledCharacter (World X) of
                None \<Rightarrow> []
              | Some P \<Rightarrow>
                  if IsNearlyZero MoveAxis then []
                  else [(ActorForwardVector P, fst MoveAxis), (ActorRightVector P, snd MoveAxis)])
       \<and> ControlledYawInputs Y = ControlledYawInputs X @ (if looks then [fst LookRate * dt] else [])
       \<and> ControlledPitchInputs Y = ControlledPitchInputs X @ (if looks then [snd LookRate * dt] else [])
       \<and> PendingJumpCount Y = (if jumps then 0 else PendingJumpCount X)
       \<and> ControlledJumpCalls Y =
           (if jumps then ControlledJumpCalls X + nat (sint (PendingJumpCount X))
            else ControlledJumpCalls X)
       \<and> PendingSprintEnabled Y = None
       \<and> ControlledMaxWalkSpeed Y =
           (case PendingSprintEnabled X of
              None \<Rightarrow> ControlledMaxWalkSpeed X
            | Some e \<Rightarrow> map_option (\<lambda>old. if e then SprintWalkSpeed X else NormalWalkSpeed X)
                          (ControlledMaxWalkSpeed X)))"
proof -
  note y = Tick_stopped [OF assms, of J NowPoll NowApply dt]
  note rm = ResolveMove_result [of NowApply "MoveActions X"]
  note rl = ResolveLook_result [of NowApply "LookActions X"]
  have a: "mset (MoveActions (Tick J NowPoll NowApply dt X))
      = mset (filter (\<lambda>a. NowApply < MoveEndTime a) (MoveActions X))"
    using rm by (simp add: y ApplySprintIfPending_jump ApplyScheduledActions_MoveActions)
  have b: "mset (LookActions (Tick J NowPoll NowApply dt X))
      = mset (filter (\<lambda>a. NowApply < LookEndTime a) (LookActions X))"
    using rl by (simp add: y ApplySprintIfPending_frame ApplyScheduledActions_LookActions)
  have c: "ControlledMovementInputs (Tick J NowPoll NowApply dt X) =
      ControlledMovementInputs X @
        (case Strands_GetControlledCharacter (World X) of
           None \<Rightarrow> []
         | Some P \<Rightarrow>
             if IsNearlyZero (snd (ResolveMove NowApply (MoveActions X))) then []
             else [(ActorForwardVector P, fst (snd (ResolveMove NowApply (MoveActions X)))),
                   (ActorRightVector P, snd (snd (ResolveMove NowApply (MoveActions X))))])"
    by (simp add: y ApplySprintIfPending_look_inputs ApplyScheduledActions_movement_inputs)
  have d: "ControlledYawInputs (Tick J NowPoll NowApply dt X) =
     ControlledYawInputs X @
       (if Strands_GetControlledPawn (World X) \<noteq> None
           \<and> \<not> IsNearlyZero (snd (ResolveLook NowApply (LookActions X)))
        then [fst (snd (ResolveLook NowApply (LookActions X))) * dt] else [])"
    and e: "ControlledPitchInputs (Tick J NowPoll NowApply dt X) =
     ControlledPitchInputs X @
       (if Strands_GetControlledPawn (World X) \<noteq> None
           \<and> \<not> IsNearlyZero (snd (ResolveLook NowApply (LookActions X)))
        then [snd (snd (ResolveLook NowApply (LookActions X))) * dt] else [])"
    using ApplyScheduledActions_look_inputs [of NowApply dt X]
    by (simp_all add: y ApplySprintIfPending_look_inputs)
  have f: "PendingJumpCount (Tick J NowPoll NowApply dt X) =
      (if Strands_GetControlledCharacter (World X) \<noteq> None \<and> 0 < sint (PendingJumpCount X)
       then 0 else PendingJumpCount X)"
    by (simp add: y ApplySprintIfPending_jump ApplyScheduledActions_jump_counter)
  have g: "ControlledJumpCalls (Tick J NowPoll NowApply dt X) =
      (if Strands_GetControlledCharacter (World X) \<noteq> None \<and> 0 < sint (PendingJumpCount X)
       then ControlledJumpCalls X + nat (sint (PendingJumpCount X)) else ControlledJumpCalls X)"
    by (simp add: y ApplySprintIfPending_look_inputs ApplyScheduledActions_jump_calls)
  have h: "PendingSprintEnabled (Tick J NowPoll NowApply dt X) = None"
    by (simp add: y ApplySprintIfPending_latch)
  have i: "ControlledMaxWalkSpeed (Tick J NowPoll NowApply dt X) =
       (case PendingSprintEnabled X of
          None \<Rightarrow> ControlledMaxWalkSpeed X
        | Some e \<Rightarrow> map_option (\<lambda>old. if e then SprintWalkSpeed X else NormalWalkSpeed X)
                      (ControlledMaxWalkSpeed X))"
    by (simp add: y ApplySprintIfPending_speed ApplyScheduledActions_latch
        ApplyScheduledActions_speeds ApplyScheduledActions_MaxWalkSpeed split: option.splits)
  have rm2: "snd (ResolveMove NowApply (MoveActions X)) =
       (max (- 1) (min 1 (sum_list (map (\<lambda>a. fst (Axis a)) (filter (\<lambda>a. NowApply < MoveEndTime a) (MoveActions X))))),
        max (- 1) (min 1 (sum_list (map (\<lambda>a. snd (Axis a)) (filter (\<lambda>a. NowApply < MoveEndTime a) (MoveActions X))))))"
    using rm by simp
  have rl2: "snd (ResolveLook NowApply (LookActions X)) =
       (sum_list (map (\<lambda>a. fst (Rate a)) (filter (\<lambda>a. NowApply < LookEndTime a) (LookActions X))),
        sum_list (map (\<lambda>a. snd (Rate a)) (filter (\<lambda>a. NowApply < LookEndTime a) (LookActions X))))"
    using rl by simp
  show ?thesis
    unfolding Let_def
    using y a b c [unfolded rm2] d [unfolded rl2] e [unfolded rl2] f g h i
    by (simp only: fst_conv snd_conv simp_thms)
qed

text \<open>
  Claim C9. \<open>StopServer\<close> empties the client list, destroys every client socket that is
  not null, releases the listener and clears the running flag, and changes nothing else:
  the move pool, the look pool, the jump counter, the sprint latch, the settings, the world
  and the recorded outputs are as before. After any run of frames since the stop the
  server is still stopped, and the next tick skips the poll and still resolves and applies
  what is scheduled: it sweeps both pools, hands the clamped move axis and the look rate
  times the frame time to the bound pawn, applies and resets the jump counter when a
  character is bound, and consumes the sprint latch.
\<close>

theorem C9_stop_keeps_scheduled_state:
  "(Clients (StopServer S) = [] \<and> \<not> Listener (StopServer S) \<and> \<not> bRunning (StopServer S)
    \<and> DestroyedSockets (StopServer S) = DestroyedSockets S @ List.map_filter Socket (Clients S)
    \<and> MoveActions (StopServer S) = MoveActions S
    \<and> LookActions (StopServer S) = LookActions S
    \<and> PendingJumpCount (StopServer S) = PendingJumpCount S
    \<and> PendingSprintEnabled (StopServer S) = PendingSprintEnabled S
    \<and> DefaultMoveDuration (StopServer S) = DefaultMoveDuration S
    \<and> DefaultLookDuration (StopServer S) = DefaultLookDuration S
    \<and> NormalWalkSpeed (StopServer S) = NormalWalkSpeed S
    \<and> SprintWalkSpeed (StopServer S) = SprintWalkSpeed S
    \<and> World (StopServer S) = World S
    \<and> ScreenshotRequests (StopServer S) = ScreenshotRequests S
    \<and> WrittenFiles (StopServer S) = WrittenFiles S
    \<and> ProjectSavedDir (StopServer S) = ProjectSavedDir S)
   \<and> (let X = Ticks J frames (StopServer S);
           Y = Tick J NowPoll NowApply dt X;
           liveM = filter (\<lambda>a. NowApply < MoveEndTime a) (MoveActions X);
           liveL = filter (\<lambda>a. NowApply < LookEndTime a) (LookActions X);
           MoveAxis = (max (- 1) (min 1 (sum_list (map (\<lambda>a. fst (Axis a)) liveM))),
                       max (- 1) (min 1 (sum_list (map (\<lambda>a. snd (Axis a)) liveM))));
           LookRate = (sum_list (map (\<lambda>a. fst (Rate a)) liveL),
                       sum_list (map (\<lambda>a. snd (Rate a)) liveL));
           jumps = (Strands_GetControlledCharacter (World X) \<noteq> None \<and> 0 < sint (PendingJumpCount X));
           looks = (Strands_GetControlledPawn (World X) \<noteq> None \<and> \<not> IsNearlyZero LookRate)
       in \<not> bRunning X \<and> Clients X = [] \<and> \<not> Listener X
          \<and> \<not> bRunning Y \<and> Clients Y = [] \<and> \<not> Listener Y
          \<and> Y = ApplySprintIfPending (ApplyScheduledActions NowApply dt X)
          \<and> mset (MoveActions Y) = mset liveM
          \<and> mset (LookActions Y) = mset liveL
          \<and> ControlledMovementInputs Y =
              ControlledMovementInputs X @
                (case Strands_GetControlledCharacter (World X) of
                   None \<Rightarrow> []
                 | Some P \<Rightarrow>
                     if IsNearlyZero MoveAxis then []
                     else [(ActorForwardVector P, fst MoveAxis), (ActorRightVector P, snd MoveAxis)])
          \<and> ControlledYawInputs Y = ControlledYawInputs X @ (if looks then [fst LookRate * dt] else [])
          \<and> ControlledPitchInputs Y = ControlledPitchInputs X @ (if looks then [snd LookRate * dt] else [])
          \<and> PendingJumpCount Y = (if jumps then 0 else PendingJumpCount X)
          \<and> ControlledJumpCalls Y =
              (if jumps then ControlledJumpCalls X + nat (sint (PendingJumpCount X))
               else ControlledJumpCalls X)
          \<and> PendingSprintEnabled Y = None
          \<and> ControlledMaxWalkSpeed Y =
              (case PendingSprintEnabled X of
                 None \<Rightarrow> ControlledMaxWalkSpeed X
               | Some e \<Rightarrow> map_option (\<lambda>old. if e then SprintWalkSpeed X else NormalWalkSpeed X)
                             (ControlledMaxWalkSpeed X)))"
proof -
  define X where "X = Ticks J frames (StopServer S)"
  have st: "\<not> bRunning X \<and> Clients X = [] \<and> \<not> Listener X"
    unfolding X_def by (rule Ticks_stopped) (rule StopServer_fields)+
  have st': "\<not> bRunning (Ticks J (frames @ [(NowPoll, NowApply, dt)]) (StopServer S))
      \<and> Clients (Ticks J (frames @ [(NowPoll, NowApply, dt)]) (StopServer S)) = []
      \<and> \<not> Listener (Ticks J (frames @ [(NowPoll, NowApply, dt)]) (StopServer S))"
    by (rule Ticks_stopped) (rule StopServer_fields)+
  have app: "\<And>fs gs Z. Ticks J (fs @ gs) Z = Ticks J gs (Ticks J fs Z)"
  proof -
    fix fs gs Z show "Ticks J (fs @ gs) Z = Ticks J gs (Ticks J fs Z)"
      by (induction fs arbitrary: Z) auto
  qed
  have sy: "\<not> bRunning (Tick J NowPoll NowApply dt X) \<and> Clients (Tick J NowPoll NowApply dt X) = []
      \<and> \<not> Listener (Tick J NowPoll NowApply dt X)"
    using st' by (simp add: app X_def)
  have nr: "\<not> bRunning X" using st by simp
  note eff = stopped_tick_effects [OF nr, of J NowPoll NowApply dt, unfolded Let_def]
  show ?thesis
    unfolding Let_def X_def [symmetric]
    using st sy eff StopServer_fields [of S]
    by blast
qed

end
